theory Spec2Isabelle
  imports Main "HOL-Library.Word"
begin

unbundle bit_operations_syntax

section \<open>SpineMLConnection: the per-connection protocol engine\<close>

text \<open>
  A shallow embedding of \<^verbatim>\<open>networkserver/matlab/SpineMLConnection.h\<close>. The class
  becomes a record, every member function a function from the connection (and the socket's
  environment) to the updated connection, and every place where the C++ leaves the defined
  language or throws becomes a \<open>fault\<close> value. The platform is the one the code is built
  for: Linux on a little-endian LP64 machine (\<open>int\<close> and \<open>unsigned int\<close> are 32 bits,
  \<open>size_t\<close> and \<open>ssize_t\<close> 64 bits, a \<open>double\<close> is 8 bytes, \<open>ECONNRESET\<close> is 104).

  Left out of the model: the log macros \<open>INFO\<close>, \<open>DBG\<close>, \<open>DBG2\<close>; the data mutex
  (the model is the view of one thread between \<open>lockDataMutex\<close> and
  \<open>unlockDataMutex\<close>); the member \<open>smallbuf\<close>, whose bytes are always written by a
  \<open>read\<close> before they are looked at, so that the bytes a \<open>read\<close> returns stand for it;
  failure of the small allocations (the deque, its blocks, the name string); and
  \<open>doInputOutput\<close>, \<open>closeSocket\<close> and the destructor, which only pass on what the
  functions below return or release what they allocated.
\<close>

subsection \<open>Bytes, doubles and the wire\<close>

type_synonym byte = "8 word"

text \<open>A \<open>double\<close> is its 64-bit pattern: the code only copies doubles, it never computes
  with them.\<close>

type_synonym double = "64 word"

abbreviation RESP_DATA_NUMS :: byte where "RESP_DATA_NUMS \<equiv> 31"
abbreviation RESP_DATA_SPIKES :: byte where "RESP_DATA_SPIKES \<equiv> 32"
abbreviation RESP_DATA_IMPULSES :: byte where "RESP_DATA_IMPULSES \<equiv> 33"
abbreviation RESP_HELLO :: byte where "RESP_HELLO \<equiv> 41"
abbreviation RESP_RECVD :: byte where "RESP_RECVD \<equiv> 42"
abbreviation AM_SOURCE :: byte where "AM_SOURCE \<equiv> 45"
abbreviation AM_TARGET :: byte where "AM_TARGET \<equiv> 46"
abbreviation NOT_SET :: byte where "NOT_SET \<equiv> 99"

abbreviation (input) NO_DATA_MAX_COUNT :: nat where "NO_DATA_MAX_COUNT \<equiv> 100"

abbreviation (input) ECONNRESET :: int where "ECONNRESET \<equiv> 104"

text \<open>
  \<^verbatim>\<open>(unsigned char)smallbuf[0] | (unsigned char)smallbuf[1] << 8
    | (unsigned char)smallbuf[2] << 16 | (unsigned char)smallbuf[3] << 24\<close>:
  the 32-bit pattern of the four bytes, the first one least significant. It is read
  unsigned (\<open>unat\<close>) where the code stores it in an \<open>unsigned int\<close> and signed
  (\<open>sint\<close>) where it stores it in an \<open>int\<close>.
\<close>

definition le32 :: "byte list \<Rightarrow> 32 word" where
  "le32 bs = ucast (bs ! 0) OR push_bit 8 (ucast (bs ! 1)) OR push_bit 16 (ucast (bs ! 2))
      OR push_bit 24 (ucast (bs ! 3))"

text \<open>The eight bytes of a double in memory, and back (little-endian host).\<close>

definition bytes_of_double :: "double \<Rightarrow> byte list" where
  "bytes_of_double d = map (\<lambda>i. ucast (drop_bit (8 * i) d)) [0..<8]"

definition double_of_bytes :: "byte list \<Rightarrow> double" where
  "double_of_bytes bs = foldr (\<lambda>b acc. ucast b OR push_bit 8 acc) bs 0"

text \<open>The first \<open>n\<close> doubles of a byte buffer: what \<^verbatim>\<open>*p++\<close> reads from
  \<open>doublebuf\<close> in \<open>n\<close> steps.\<close>

fun get_doubles :: "nat \<Rightarrow> byte list \<Rightarrow> double list" where
  "get_doubles 0 bs = []"
| "get_doubles (Suc n) bs = double_of_bytes (take 8 bs) # get_doubles n (drop 8 bs)"

definition put_doubles :: "double list \<Rightarrow> byte list" where
  "put_doubles ds = concat (map bytes_of_double ds)"

subsection \<open>The socket and its environment\<close>

text \<open>
  The code talks to the world through \<open>read\<close>, \<open>write\<close> and \<open>errno\<close>. The world is
  a script: \<open>reads\<close> lists what successive \<open>read\<close> calls find (bytes that have
  arrived, possibly none, or an error with its \<open>errno\<close>), \<open>writes\<close> lists what
  successive \<open>write\<close> calls meet (the number of bytes the socket takes, or an error).
  When a script is used up, a \<open>read\<close> finds no bytes and a \<open>write\<close> takes everything.
  \<open>sent\<close> records the bytes each \<open>write\<close> call transferred. A call that fails
  sets \<open>errno\<close>; a call that succeeds leaves it as it was, so the code can see a stale
  value. \<open>dataCache\<close> is the global of that name, a pointer to a map from connection
  names to deques: \<open>None\<close> is the null pointer of the dummy declaration, and the map is
  the list of its entries, each name at most once. \<open>memory\<close> is what the free store
  can give: \<^verbatim>\<open>new double[n]\<close> succeeds for \<open>n\<close> up to \<open>memory\<close> and throws
  \<open>std::bad_alloc\<close> for a larger \<open>n\<close>.
\<close>

datatype rd_event = RdData "byte list" | RdErr int

datatype wr_event = WrCount nat | WrErr int

record world =
  reads :: "rd_event list"
  writes :: "wr_event list"
  sent :: "byte list list"
  errno :: int
  dataCache :: "(byte list \<times> double list) list option"
  memory :: nat

text \<open>Linux transfers at most \<open>MAX_RW_COUNT\<close> bytes in one call, so the count a call
  returns always fits the \<open>int\<close> that \<open>doReadFromClient\<close> stores it in.\<close>

abbreviation (input) MAX_RW_COUNT :: nat where "MAX_RW_COUNT \<equiv> 2147479552"

text \<open>\<open>read (fd, buf, n)\<close>: the count returned, the bytes put into the buffer, the world
  after the call. Bytes that arrived and were not asked for stay in the socket.\<close>

definition sys_read :: "nat \<Rightarrow> world \<Rightarrow> int \<times> byte list \<times> world" where
  "sys_read n w =
     (case (case reads w of [] \<Rightarrow> RdData [] | e # _ \<Rightarrow> e) of
        RdErr e \<Rightarrow> (- 1, [], w\<lparr>reads := tl (reads w), errno := e\<rparr>)
      | RdData bs \<Rightarrow>
          (let m = min n MAX_RW_COUNT in
           (int (length (take m bs)), take m bs,
            w\<lparr>reads := (if m < length bs then RdData (drop m bs) # tl (reads w)
                         else tl (reads w))\<rparr>)))"

text \<open>\<open>write (fd, buf, n)\<close> with the \<open>n\<close> bytes of the buffer given as a list: the count
  returned and the world after the call.\<close>

definition sys_write :: "byte list \<Rightarrow> world \<Rightarrow> int \<times> world" where
  "sys_write bs w =
     (case (case writes w of [] \<Rightarrow> WrCount (length bs) | e # _ \<Rightarrow> e) of
        WrErr e \<Rightarrow> (- 1, w\<lparr>writes := tl (writes w), errno := e\<rparr>)
      | WrCount k \<Rightarrow>
          (let m = min k (min (length bs) MAX_RW_COUNT) in
           (int m, w\<lparr>writes := tl (writes w), sent := sent w @ [take m bs]\<rparr>)))"

text \<open>An entry of the \<open>writes\<close> script at which a \<open>write\<close> of one byte transfers
  the byte.\<close>

definition wr_ok :: "wr_event \<Rightarrow> bool" where
  "wr_ok e = (case e of WrCount k \<Rightarrow> 0 < k | WrErr x \<Rightarrow> False)"

text \<open>The bytes that a \<open>reads\<close> script holds: what the \<open>read\<close> calls to come can
  take from the socket.\<close>

fun script_bytes :: "rd_event list \<Rightarrow> nat" where
  "script_bytes [] = 0"
| "script_bytes (RdData bs # rs) = length bs + script_bytes rs"
| "script_bytes (RdErr e # rs) = script_bytes rs"

text \<open>
  How the client's bytes reach a \<open>read\<close> that asks for the piece \<open>p\<close>.
  \<open>whole_read p rs\<close>: the call finds all of \<open>p\<close> there, alone or with later bytes
  behind it, which stay in the socket; the result is the script left. \<open>stalled_read k p rs\<close>:
  the same after at most \<open>k\<close> calls that find no byte.
\<close>

definition whole_read :: "byte list \<Rightarrow> rd_event list \<Rightarrow> rd_event list option" where
  "whole_read p rs =
     (case (case rs of [] \<Rightarrow> RdData [] | e # _ \<Rightarrow> e) of
        RdErr e \<Rightarrow> None
      | RdData bs \<Rightarrow>
          if take (length p) bs = p then
            Some (if length p < length bs then RdData (drop (length p) bs) # tl rs else tl rs)
          else None)"

fun stalled_read :: "nat \<Rightarrow> byte list \<Rightarrow> rd_event list \<Rightarrow> rd_event list option" where
  "stalled_read 0 p rs = whole_read p rs"
| "stalled_read (Suc k) p rs =
     (if rs \<noteq> [] \<and> hd rs = RdData [] then stalled_read k p (tl rs) else whole_read p rs)"

subsection \<open>The connection\<close>

text \<open>
  \<open>data\<close> and \<open>doublebuf\<close> are pointers: \<open>None\<close> is the null pointer. A deque is the
  list of its elements, front first. Of \<open>doublebuf\<close> the model keeps the number of slots
  allocated: its contents are always overwritten before they are read. The dereference
  of a null pointer, an access past the end of an array and an array of negative length
  (or an index below zero) are undefined behaviour in C++; the model stops there with a
  fault, as it does where \<open>deque::at\<close> throws \<open>std::out_of_range\<close> and where \<open>new\<close>
  throws \<open>std::bad_alloc\<close>: nothing in the class catches either.
\<close>

datatype fault = NullPointer | OutOfRange | BufferOverrun | NegativeLength | BadAlloc

record connection =
  connectingSocket :: int
  established :: bool
  failed :: bool
  finished :: bool
  unacknowledgedDataSent :: bool
  noData :: nat
  clientConnectionName :: "byte list"
  clientDataDirection :: byte
  clientDataType :: byte
  clientDataSize :: "32 word"
  data :: "double list option"
  doublebuf :: "nat option"

text \<open>The constructor.\<close>

definition SpineMLConnection :: connection where
  "SpineMLConnection =
     \<lparr>connectingSocket = 0, established = False, failed = False, finished = False,
      unacknowledgedDataSent = False, noData = 0, clientConnectionName = [],
      clientDataDirection = NOT_SET, clientDataType = NOT_SET, clientDataSize = 1,
      data = None, doublebuf = None\<rparr>"

subsection \<open>The buffer's accessors\<close>

text \<open>\<^verbatim>\<open>this->data->push_back (d)\<close> on the pointer \<open>data\<close>.\<close>

definition push_back :: "double \<Rightarrow> double list option \<Rightarrow> fault + double list option" where
  "push_back d p = (case p of None \<Rightarrow> Inl NullPointer | Some q \<Rightarrow> Inr (Some (q @ [d])))"

text \<open>The loops \<^verbatim>\<open>while (i < n) { this->data->push_back (*d); ++d; ++i; }\<close> of
  \<open>addData\<close> and \<open>doReadFromClient\<close>, over the values read from the array.\<close>

fun push_all :: "double list \<Rightarrow> double list option \<Rightarrow> fault + double list option" where
  "push_all [] p = Inr p"
| "push_all (d # ds) p = (case push_back d p of Inl f \<Rightarrow> Inl f | Inr p' \<Rightarrow> push_all ds p')"

definition addNum :: "double \<Rightarrow> connection \<Rightarrow> fault + connection" where
  "addNum d c =
     (if \<not> established c \<or> failed c then Inr c
      else case push_back d (data c) of
             Inl f \<Rightarrow> Inl f
           | Inr p \<Rightarrow> Inr (c\<lparr>data := p\<rparr>))"

text \<open>\<open>addData (d, dataSize)\<close>: the array \<open>d\<close> is the list of its elements; reading
  more elements than it has is an overrun.\<close>

definition addData :: "double list \<Rightarrow> nat \<Rightarrow> connection \<Rightarrow> fault + connection" where
  "addData d dataSize c =
     (if \<not> established c \<or> failed c then Inr c
      else if length d < dataSize then Inl BufferOverrun
      else case push_all (take dataSize d) (data c) of
             Inl f \<Rightarrow> Inl f
           | Inr p \<Rightarrow> Inr (c\<lparr>data := p\<rparr>))"

definition getDataSize :: "connection \<Rightarrow> fault + nat" where
  "getDataSize c = (case data c of None \<Rightarrow> Inl NullPointer | Some q \<Rightarrow> Inr (length q))"

text \<open>\<open>popFront\<close>: \<^verbatim>\<open>rtn = this->data->at(0); this->data->pop_front();\<close>. \<open>at\<close> throws
  before anything is removed; the exception leaves \<open>popFront\<close> with the connection as
  it is then, which the model hands back with the fault.\<close>

definition popFront :: "connection \<Rightarrow> fault \<times> connection + double \<times> connection" where
  "popFront c =
     (case data c of
        None \<Rightarrow> Inl (NullPointer, c)
      | Some q \<Rightarrow>
          (case q of
             [] \<Rightarrow> Inl (OutOfRange, c)
           | x # q' \<Rightarrow> Inr (x, c\<lparr>data := Some q'\<rparr>)))"

text \<open>\<open>k\<close> calls of \<open>popFront\<close> in a row, with the values they return in order.\<close>

fun popFronts :: "nat \<Rightarrow> connection \<Rightarrow> fault \<times> connection + double list \<times> connection" where
  "popFronts 0 c = Inr ([], c)"
| "popFronts (Suc k) c =
     (case popFront c of
        Inl f \<Rightarrow> Inl f
      | Inr (x, c') \<Rightarrow>
          (case popFronts k c' of
             Inl f \<Rightarrow> Inl f
           | Inr (xs, c'') \<Rightarrow> Inr (x # xs, c'')))"

text \<open>\<open>k\<close> calls of \<open>addNum\<close> in a row, one for each value.\<close>

fun addNums :: "double list \<Rightarrow> connection \<Rightarrow> fault + connection" where
  "addNums [] c = Inr c"
| "addNums (d # ds) c = (case addNum d c of Inl f \<Rightarrow> Inl f | Inr c' \<Rightarrow> addNums ds c')"

subsection \<open>The handshake\<close>

abbreviation (input) CS_HS_GETTINGTARGET :: nat where "CS_HS_GETTINGTARGET \<equiv> 0"
abbreviation (input) CS_HS_GETTINGDATATYPE :: nat where "CS_HS_GETTINGDATATYPE \<equiv> 1"
abbreviation (input) CS_HS_GETTINGDATASIZE :: nat where "CS_HS_GETTINGDATASIZE \<equiv> 2"
abbreviation (input) CS_HS_GETTINGNAME :: nat where "CS_HS_GETTINGNAME \<equiv> 3"
abbreviation (input) CS_HS_DONE :: nat where "CS_HS_DONE \<equiv> 4"

text \<open>What one pass through the body of the \<open>while\<close> loop of \<open>doHandshake\<close> does: it
  goes on to the next pass, with the stage to run there, or it returns from
  \<open>doHandshake\<close>, or it leaves the defined language.\<close>

datatype hs_step = Continue nat connection world | Return int connection world | Fault fault

text \<open>The branch \<^verbatim>\<open>handshakeStage == CS_HS_GETTINGTARGET\<close>.\<close>

definition hs_target :: "connection \<Rightarrow> world \<Rightarrow> hs_step" where
  "hs_target c w =
     (case sys_read 1 w of (b, buf, w1) \<Rightarrow>
        if b = 1 then
          if buf ! 0 = AM_SOURCE \<or> buf ! 0 = AM_TARGET then
            (let c1 = c\<lparr>clientDataDirection := buf ! 0\<rparr> in
             case sys_write [RESP_HELLO] w1 of (n, w2) \<Rightarrow>
               if n \<noteq> 1 then Return (- 1) (c1\<lparr>failed := True\<rparr>) w2
               else Continue (CS_HS_GETTINGTARGET + 1) (c1\<lparr>noData := 0\<rparr>) w2)
          else Return (- 1) (c\<lparr>clientDataDirection := NOT_SET, failed := True\<rparr>) w1
        else Continue CS_HS_GETTINGTARGET (c\<lparr>noData := noData c + 1\<rparr>) w1)"

text \<open>The branch \<^verbatim>\<open>handshakeStage == CS_HS_GETTINGDATATYPE\<close>.\<close>

definition hs_datatype :: "connection \<Rightarrow> world \<Rightarrow> hs_step" where
  "hs_datatype c w =
     (case sys_read 1 w of (b, buf, w1) \<Rightarrow>
        if b = 1 then
          if buf ! 0 = RESP_DATA_NUMS then
            (let c1 = c\<lparr>clientDataType := buf ! 0\<rparr> in
             case sys_write [RESP_RECVD] w1 of (n, w2) \<Rightarrow>
               if n \<noteq> 1 then Return (- 1) (c1\<lparr>failed := True\<rparr>) w2
               else Continue (CS_HS_GETTINGDATATYPE + 1) (c1\<lparr>noData := 0\<rparr>) w2)
          else if buf ! 0 = RESP_DATA_SPIKES \<or> buf ! 0 = RESP_DATA_IMPULSES then
            Return (- 1) (c\<lparr>failed := True\<rparr>) w1
          else Return (- 1) (c\<lparr>failed := True\<rparr>) w1
        else Continue CS_HS_GETTINGDATATYPE (c\<lparr>noData := noData c + 1\<rparr>) w1)"

text \<open>The branch \<^verbatim>\<open>handshakeStage == CS_HS_GETTINGDATASIZE\<close>;
  \<^verbatim>\<open>new double[clientDataSize]\<close> gives \<open>doublebuf\<close> that many slots, or throws.\<close>

definition hs_datasize :: "connection \<Rightarrow> world \<Rightarrow> hs_step" where
  "hs_datasize c w =
     (case sys_read 4 w of (b, buf, w1) \<Rightarrow>
        if b = 4 then
          (let c1 = c\<lparr>clientDataSize := le32 buf\<rparr> in
           if memory w1 < unat (clientDataSize c1) then Fault BadAlloc
           else
             (let c2 = c1\<lparr>doublebuf := Some (unat (clientDataSize c1))\<rparr> in
              case sys_write [RESP_RECVD] w1 of (n, w2) \<Rightarrow>
                if n \<noteq> 1 then Return (- 1) (c2\<lparr>failed := True\<rparr>) w2
                else Continue (CS_HS_GETTINGDATASIZE + 1) (c2\<lparr>noData := 0\<rparr>) w2))
        else if b > 0 then Return (- 1) (c\<lparr>failed := True\<rparr>) w1
        else Continue CS_HS_GETTINGDATASIZE (c\<lparr>noData := noData c + 1\<rparr>) w1)"

text \<open>
  The lookup in \<open>dataCache\<close> once the name is known: the connection takes the deque
  stored under its name and the entry is erased, or it gets a new, empty deque.
\<close>

definition attach_data :: "connection \<Rightarrow> world \<Rightarrow> connection \<times> world" where
  "attach_data c w =
     (case dataCache w of
        None \<Rightarrow> (c\<lparr>data := Some []\<rparr>, w)
      | Some m \<Rightarrow>
          (case map_of m (clientConnectionName c) of
             Some q \<Rightarrow>
               (c\<lparr>data := Some q\<rparr>,
                w\<lparr>dataCache := Some (filter (\<lambda>kv. fst kv \<noteq> clientConnectionName c) m)\<rparr>)
           | None \<Rightarrow> (c\<lparr>data := Some []\<rparr>, w)))"

text \<open>
  The branch \<^verbatim>\<open>handshakeStage == CS_HS_GETTINGNAME\<close>, in the order of the source.
  \<open>nameSize\<close> is an \<open>int\<close>: the four bytes are read signed, and a negative
  \<open>nameSize\<close> passes the sanity check \<^verbatim>\<open>nameSize > 1024\<close>. Then
  \<^item> \<^verbatim>\<open>char namebuf[1+nameSize]\<close> is an array of negative length for a \<open>nameSize\<close>
    below \<open>-1\<close>, and an array of length 0 for \<open>-1\<close>;
  \<^item> \<^verbatim>\<open>read (fd, namebuf, nameSize)\<close> takes its count as a \<open>size_t\<close>, which is
    \<open>nameSize\<close> modulo \<open>2\<^sup>6\<^sup>4\<close>; bytes that it stores past the end of \<open>namebuf\<close>
    (only an array of length 0 is too short for what it is asked to take) are an overrun;
  \<^item> \<^verbatim>\<open>b != nameSize\<close> compares the count returned with \<open>nameSize\<close>, so that with
    \<open>nameSize = -1\<close> a \<open>read\<close> that fails goes on, to
    the store to \<^verbatim>\<open>namebuf[nameSize]\<close> at the index \<open>-1\<close>;
  \<^item> \<^verbatim>\<open>clientConnectionName.assign (namebuf)\<close> takes a C string: the bytes before the
    first zero byte.
\<close>

definition hs_name :: "connection \<Rightarrow> world \<Rightarrow> hs_step" where
  "hs_name c w =
     (case sys_read 4 w of (b, buf, w1) \<Rightarrow>
        if b = 4 then
          (let nameSize = sint (le32 buf) in
           if nameSize > 1024 then Return (- 1) (c\<lparr>failed := True\<rparr>) w1
           else if 1 + nameSize < 0 then Fault NegativeLength
           else
             case sys_read (nat (nameSize mod 2 ^ 64)) w1 of (b', namebuf, w2) \<Rightarrow>
               if 1 + nameSize < int (length namebuf) then Fault BufferOverrun
               else if b' \<noteq> nameSize then Return (- 1) (c\<lparr>failed := True\<rparr>) w2
               else if nameSize < 0 then Fault NegativeLength
               else
                 (let c1 = c\<lparr>clientConnectionName := takeWhile (\<lambda>x. x \<noteq> 0) namebuf\<rparr> in
                  case sys_write [RESP_RECVD] w2 of (n, w3) \<Rightarrow>
                    if n \<noteq> 1 then Return (- 1) (c1\<lparr>failed := True\<rparr>) w3
                    else
                      (case attach_data c1 w3 of (c2, w4) \<Rightarrow>
                         Continue (CS_HS_GETTINGNAME + 1) (c2\<lparr>noData := 0\<rparr>) w4)))
        else if b > 0 then Return (- 1) (c\<lparr>failed := True\<rparr>) w1
        else Continue CS_HS_GETTINGNAME (c\<lparr>noData := noData c + 1\<rparr>) w1)"

text \<open>The body of the loop: the chain of \<open>if\<close>s on \<open>handshakeStage\<close>.\<close>

definition hs_body :: "nat \<Rightarrow> connection \<Rightarrow> world \<Rightarrow> hs_step" where
  "hs_body stage c w =
     (if stage = CS_HS_GETTINGTARGET then hs_target c w
      else if stage = CS_HS_GETTINGDATATYPE then hs_datatype c w
      else if stage = CS_HS_GETTINGDATASIZE then hs_datasize c w
      else if stage = CS_HS_GETTINGNAME then hs_name c w
      else if stage = CS_HS_DONE then Continue stage c w
      else Return (- 1) (c\<lparr>failed := True\<rparr>) w)"

text \<open>How far the loop is from its end: the stages left, then the stalls left.\<close>

definition hs_measure :: "nat \<times> connection \<times> world \<Rightarrow> nat" where
  "hs_measure x =
     (case x of (stage, c, w) \<Rightarrow>
        (CS_HS_DONE - stage) * (NO_DATA_MAX_COUNT + 1) + (NO_DATA_MAX_COUNT - noData c))"

text \<open>
  The loop \<^verbatim>\<open>while (handshakeStage != CS_HS_DONE && this->noData < NO_DATA_MAX_COUNT)\<close>
  and the code after it.
\<close>

function hs_loop :: "nat \<Rightarrow> connection \<Rightarrow> world \<Rightarrow> fault + (int \<times> connection \<times> world)" where
  "hs_loop stage c w =
     (if stage \<noteq> CS_HS_DONE \<and> noData c < NO_DATA_MAX_COUNT then
        (case hs_body stage c w of
           Continue stage' c' w' \<Rightarrow> hs_loop stage' c' w'
         | Return rc c' w' \<Rightarrow> Inr (rc, c', w')
         | Fault f \<Rightarrow> Inl f)
      else if noData c \<ge> NO_DATA_MAX_COUNT then Inr (- 1, c\<lparr>failed := True\<rparr>, w)
      else Inr (0, c\<lparr>established := True\<rparr>, w))"
  by pat_completeness auto
termination
proof (relation "measure hs_measure")
  show "wf (measure hs_measure)"
    by simp
next
  fix stage c w stage' c' w'
  assume "stage \<noteq> CS_HS_DONE \<and> noData c < NO_DATA_MAX_COUNT"
    and "hs_body stage c w = Continue stage' c' w'"
  then show "((stage', c', w'), (stage, c, w)) \<in> measure hs_measure"
    by (auto simp: hs_body_def hs_target_def hs_datatype_def hs_datasize_def hs_name_def
        hs_measure_def Let_def split: if_splits prod.splits)
qed

declare hs_loop.simps [simp del]

definition doHandshake :: "connection \<Rightarrow> world \<Rightarrow> fault + (int \<times> connection \<times> world)" where
  "doHandshake c w = hs_loop CS_HS_GETTINGTARGET (c\<lparr>noData := 0\<rparr>) w"

subsection \<open>The steady state\<close>

text \<open>The fault, if any, of storing \<open>n\<close> bytes in \<open>doublebuf\<close>, from its start on:
  none when nothing is stored.\<close>

definition doublebuf_fault :: "connection \<Rightarrow> nat \<Rightarrow> fault option" where
  "doublebuf_fault c n =
     (if n = 0 then None
      else case doublebuf c of
             None \<Rightarrow> Some NullPointer
           | Some k \<Rightarrow> if 8 * k < n then Some BufferOverrun else None)"

text \<open>The end of \<open>doReadFromClient\<close>, from \<^verbatim>\<open>// Now write RESP_RECVD\<close> on.\<close>

definition write_recvd :: "connection \<Rightarrow> world \<Rightarrow> fault + (int \<times> connection \<times> world)" where
  "write_recvd c w =
     (case sys_write [RESP_RECVD] w of (n, w1) \<Rightarrow>
        if n \<noteq> 1 then
          if errno w1 = ECONNRESET then Inr (1, c, w1) else Inr (- 1, c, w1)
        else Inr (0, c, w1))"

text \<open>\<open>doReadFromClient\<close>. The \<open>read\<close> stores the bytes it returns in \<open>doublebuf\<close>.
  The chain of \<open>if\<close>s has no branch of its own for a count strictly between 0 and
  \<open>datachunk\<close>: such a call falls through to the code that writes \<open>RESP_RECVD\<close>.\<close>

definition doReadFromClient :: "connection \<Rightarrow> world \<Rightarrow> fault + (int \<times> connection \<times> world)" where
  "doReadFromClient c w =
     (let datachunk = 8 * unat (clientDataSize c) in
      case sys_read datachunk w of (b, buf, w1) \<Rightarrow>
        (case doublebuf_fault c (length buf) of
           Some f \<Rightarrow> Inl f
         | None \<Rightarrow>
             if b < 0 then Inr (- 1, c, w1)
             else if b = int datachunk then
               (case push_all (get_doubles (unat (clientDataSize c)) buf) (data c) of
                  Inl f \<Rightarrow> Inl f
                | Inr p \<Rightarrow> write_recvd (c\<lparr>data := p, noData := 0\<rparr>) w1)
             else if b = 0 \<and> noData c < NO_DATA_MAX_COUNT then
               Inr (0, c\<lparr>noData := noData c + 1\<rparr>, w1)
             else if b = 0 \<and> noData c = NO_DATA_MAX_COUNT then Inr (1, c, w1)
             else write_recvd c w1))"

text \<open>The loop \<^verbatim>\<open>while (j < clientDataSize) { *p++ = data->at(0); ++j; data->pop_front(); }\<close>:
  the values moved to \<open>doublebuf\<close> and the deque left. The counter is a natural number
  here: the \<open>int\<close> of the code overflows only with a \<open>clientDataSize\<close> above
  \<open>INT_MAX\<close> and a deque of that many values (16 GiB of doubles).\<close>

fun drain :: "nat \<Rightarrow> double list \<Rightarrow> fault + (double list \<times> double list)" where
  "drain 0 q = Inr ([], q)"
| "drain (Suc j) q =
     (case q of
        [] \<Rightarrow> Inl OutOfRange
      | x # q' \<Rightarrow>
          (case drain j q' of
             Inl f \<Rightarrow> Inl f
           | Inr (vs, r) \<Rightarrow> Inr (x # vs, r)))"

text \<open>The second half of \<open>doWriteToClient\<close>, from
  \<^verbatim>\<open>// We're going to update some data in memory\<close> on.\<close>

definition write_batch :: "connection \<Rightarrow> world \<Rightarrow> fault + (int \<times> connection \<times> world)" where
  "write_batch c w =
     (case data c of
        None \<Rightarrow> Inl NullPointer
      | Some q \<Rightarrow>
          if length q \<ge> unat (clientDataSize c) then
            (case doublebuf_fault c (8 * unat (clientDataSize c)) of
               Some f \<Rightarrow> Inl f
             | None \<Rightarrow>
                 (case drain (unat (clientDataSize c)) q of
                    Inl f \<Rightarrow> Inl f
                  | Inr (vs, q') \<Rightarrow>
                      (let c1 = c\<lparr>data := Some q'\<rparr> in
                       case sys_write (put_doubles vs) w of (n, w1) \<Rightarrow>
                         if n \<noteq> int (unat (clientDataSize c) * 8) then Inr (- 1, c1, w1)
                         else Inr (0, c1\<lparr>unacknowledgedDataSent := True, noData := 0\<rparr>, w1))))
          else if noData c \<ge> NO_DATA_MAX_COUNT then Inr (1, c, w)
          else Inr (0, c\<lparr>noData := noData c + 1\<rparr>, w))"

definition doWriteToClient :: "connection \<Rightarrow> world \<Rightarrow> fault + (int \<times> connection \<times> world)" where
  "doWriteToClient c w =
     (if unacknowledgedDataSent c then
        (case sys_read 1 w of (b, buf, w1) \<Rightarrow>
           if b = 1 then
             if buf ! 0 \<noteq> RESP_RECVD then Inr (- 1, c, w1)
             else write_batch (c\<lparr>unacknowledgedDataSent := False, noData := 0\<rparr>) w1
           else if b = 0 \<and> noData c < NO_DATA_MAX_COUNT then
             Inr (0, c\<lparr>noData := noData c + 1\<rparr>, w1)
           else if b = 0 \<and> noData c = NO_DATA_MAX_COUNT then
             if errno w1 = 0 then Inr (1, c, w1) else Inr (- 1, c, w1)
           else
             if errno w1 = ECONNRESET then Inr (1, c, w1) else Inr (- 1, c, w1))
      else write_batch c w)"

text \<open>Modelled from the spec: the thread that owns a connection is not in the source at
  hand; it "repeatedly invokes the lifecycle's single tick operation until the connection
  is finished or failed". \<open>ticks f n\<close> is \<open>n\<close> calls in a row of the function \<open>f\<close>
  that is called once per tick, stopping at the first call that does not return 0.\<close>

fun ticks ::
  "(connection \<Rightarrow> world \<Rightarrow> fault + (int \<times> connection \<times> world)) \<Rightarrow> nat \<Rightarrow>
   connection \<Rightarrow> world \<Rightarrow> fault + (int \<times> connection \<times> world)" where
  "ticks f 0 c w = Inr (0, c, w)"
| "ticks f (Suc n) c w =
     (case f c w of
        Inl e \<Rightarrow> Inl e
      | Inr (rc, c', w') \<Rightarrow> if rc = 0 then ticks f n c' w' else Inr (rc, c', w'))"

text \<open>What every pass through the loop keeps: it leaves \<open>data\<close> and \<open>established\<close>
  alone unless it is the pass that ends the last stage, and when it returns, it returns
  \<open>-1\<close> with \<open>failed\<close> set.\<close>

definition hs_keeps :: "connection \<Rightarrow> hs_step \<Rightarrow> bool" where
  "hs_keeps c s =
     (case s of
        Continue stage' c' w' \<Rightarrow>
          established c' = established c \<and>
          (data c' = data c \<or> (stage' = CS_HS_DONE \<and> noData c' = 0))
      | Return rc c' w' \<Rightarrow>
          data c' = data c \<and> rc = - 1 \<and> failed c' \<and> established c' = established c
      | Fault f \<Rightarrow> True)"

text \<open>What the stages reached so far have allocated: \<open>doublebuf\<close> from the end of the
  data-size stage on, \<open>data\<close> from the end of the name stage on.\<close>

definition hs_allocated :: "nat \<Rightarrow> connection \<Rightarrow> bool" where
  "hs_allocated stage c =
     ((if stage < CS_HS_GETTINGNAME then True
       else doublebuf c = Some (unat (clientDataSize c))) \<and>
      (if stage < CS_HS_DONE then True else data c \<noteq> None))"

section \<open>Properties\<close>

subsection \<open>The buffer\<close>

lemma push_all_Some: "push_all ds (Some q) = Inr (Some (q @ ds))"
  by (induction ds arbitrary: q) (simp_all add: push_back_def)

lemma addNums_Some:
  "established c \<Longrightarrow> \<not> failed c \<Longrightarrow> data c = Some q \<Longrightarrow>
   addNums ds c = Inr (c\<lparr>data := Some (q @ ds)\<rparr>)"
  by (induction ds arbitrary: c q) (simp_all add: addNum_def push_back_def)

lemma popFronts_Some:
  "data c = Some (xs @ q) \<Longrightarrow> popFronts (length xs) c = Inr (xs, c\<lparr>data := Some q\<rparr>)"
  by (induction xs arbitrary: c) (simp_all add: popFront_def)

text \<open>
  Claim C8. On a connection whose buffer is allocated, \<open>popFront\<close> on the empty buffer
  raises \<open>std::out_of_range\<close> and leaves the connection as it was, the buffer still
  empty; on a buffer that is not empty it returns the front value and removes that one
  value and no other.
\<close>

theorem popFront_empty_or_front:
  "data c = Some q \<Longrightarrow>
   (q = [] \<longrightarrow> popFront c = Inl (OutOfRange, c) \<and> data c = Some []) \<and>
   (q \<noteq> [] \<longrightarrow> popFront c = Inr (hd q, c\<lparr>data := Some (tl q)\<rparr>))"
  by (cases q) (simp_all add: popFront_def)

theorem popFront_empty_or_front_witness:
  "popFront (SpineMLConnection\<lparr>data := Some []\<rparr>)
     = Inl (OutOfRange, SpineMLConnection\<lparr>data := Some []\<rparr>) \<and>
   popFront (SpineMLConnection\<lparr>data := Some [7, 8]\<rparr>)
     = Inr (7, SpineMLConnection\<lparr>data := Some [8]\<rparr>)"
  using popFront_empty_or_front [of "SpineMLConnection\<lparr>data := Some []\<rparr>" "[]"]
    popFront_empty_or_front [of "SpineMLConnection\<lparr>data := Some [7, 8]\<rparr>" "[7, 8]"]
  by simp

text \<open>
  Claim C9. The FIFO law: on an established connection that has not failed and whose
  buffer is empty, appending \<open>v\<^sub>1 \<dots> v\<^sub>k\<close> (by one \<open>addData\<close> or by \<open>k\<close> calls of
  \<open>addNum\<close>) and then calling \<open>popFront\<close> \<open>k\<close> times returns \<open>v\<^sub>1 \<dots> v\<^sub>k\<close> in that
  order and leaves the buffer empty, for every \<open>k\<close>.
\<close>

theorem fifo_round_trip:
  assumes "established c" and "\<not> failed c" and "data c = Some []"
  shows "addData vs (length vs) c = Inr (c\<lparr>data := Some vs\<rparr>) \<and>
         addNums vs c = Inr (c\<lparr>data := Some vs\<rparr>) \<and>
         popFronts (length vs) (c\<lparr>data := Some vs\<rparr>) = Inr (vs, c\<lparr>data := Some []\<rparr>)"
proof -
  have "addData vs (length vs) c = Inr (c\<lparr>data := Some vs\<rparr>)"
    using assms by (simp add: addData_def push_all_Some)
  moreover have "addNums vs c = Inr (c\<lparr>data := Some vs\<rparr>)"
    using addNums_Some [OF assms, of vs] by simp
  moreover have "popFronts (length vs) (c\<lparr>data := Some vs\<rparr>) = Inr (vs, c\<lparr>data := Some []\<rparr>)"
    using popFronts_Some [of "c\<lparr>data := Some vs\<rparr>" vs "[]"] by simp
  ultimately show ?thesis by simp
qed

theorem fifo_round_trip_witness:
  "addData [1, 2, 3] 3 (SpineMLConnection\<lparr>established := True, data := Some []\<rparr>)
     = Inr (SpineMLConnection\<lparr>established := True, data := Some [1, 2, 3]\<rparr>) \<and>
   addNums [1, 2, 3] (SpineMLConnection\<lparr>established := True, data := Some []\<rparr>)
     = Inr (SpineMLConnection\<lparr>established := True, data := Some [1, 2, 3]\<rparr>) \<and>
   popFronts 3 (SpineMLConnection\<lparr>established := True, data := Some [1, 2, 3]\<rparr>)
     = Inr ([1, 2, 3], SpineMLConnection\<lparr>established := True, data := Some []\<rparr>)"
proof -
  let ?c = "SpineMLConnection\<lparr>established := True, data := Some []\<rparr>"
  have h: "established ?c" "\<not> failed ?c" "data ?c = Some []"
    by (simp_all add: SpineMLConnection_def)
  have l: "length [1, 2, 3 :: double] = 3"
    by simp
  show ?thesis
    using fifo_round_trip [OF h, of "[1, 2, 3]"] unfolding l by simp
qed

subsection \<open>What the handshake can return\<close>

lemma hs_target_keeps: "hs_keeps c (hs_target c w)"
  by (simp add: hs_keeps_def hs_target_def Let_def split: prod.splits)

lemma hs_datatype_keeps: "hs_keeps c (hs_datatype c w)"
  by (simp add: hs_keeps_def hs_datatype_def Let_def split: prod.splits)

lemma hs_datasize_keeps: "hs_keeps c (hs_datasize c w)"
  by (simp add: hs_keeps_def hs_datasize_def Let_def split: prod.splits)

lemma attach_data_established:
  "attach_data c w = (c', w') \<Longrightarrow> established c' = established c"
  by (auto simp: attach_data_def split: option.splits)

lemma hs_name_keeps: "hs_keeps c (hs_name c w)"
  by (auto simp: hs_keeps_def hs_name_def Let_def dest: attach_data_established
      split: prod.splits)

lemma hs_body_keeps: "stage \<noteq> CS_HS_DONE \<Longrightarrow> hs_keeps c (hs_body stage c w)"
  by (simp add: hs_body_def hs_target_keeps hs_datatype_keeps hs_datasize_keeps hs_name_keeps)
    (simp add: hs_keeps_def)

lemma hs_loop_done:
  "noData c < NO_DATA_MAX_COUNT \<Longrightarrow>
   hs_loop CS_HS_DONE c w = Inr (0, c\<lparr>established := True\<rparr>, w)"
  by (simp add: hs_loop.simps [of 4])

text \<open>When \<open>doHandshake\<close> returns, it returns 0 with \<open>established\<close> set, or \<open>-1\<close> with
  \<open>failed\<close> set and with \<open>established\<close> and \<open>data\<close> as they were.\<close>

lemma hs_loop_outcome:
  "hs_loop stage c w = Inr (rc, c', w') \<Longrightarrow>
   (rc = 0 \<and> established c') \<or>
   (rc = - 1 \<and> failed c' \<and> established c' = established c \<and> data c' = data c)"
proof (induction stage c w rule: hs_loop.induct)
  case (1 stage c w)
  show ?case
  proof (cases "stage \<noteq> CS_HS_DONE \<and> noData c < NO_DATA_MAX_COUNT")
    case True
    then have k: "hs_keeps c (hs_body stage c w)"
      by (simp add: hs_body_keeps)
    show ?thesis
    proof (cases "hs_body stage c w")
      case (Continue stage' c1 w1)
      with True "1.prems" have l: "hs_loop stage' c1 w1 = Inr (rc, c', w')"
        by (simp add: hs_loop.simps [of stage])
      from k Continue have e: "established c1 = established c"
        and d: "data c1 = data c \<or> (stage' = CS_HS_DONE \<and> noData c1 = 0)"
        by (simp_all add: hs_keeps_def)
      from d show ?thesis
      proof
        assume "data c1 = data c"
        with "1.IH" [OF True Continue l] e show ?thesis by simp
      next
        assume "stage' = CS_HS_DONE \<and> noData c1 = 0"
        with l hs_loop_done [of c1 w1] show ?thesis by auto
      qed
    next
      case (Return r c1 w1)
      with k True "1.prems" show ?thesis
        by (simp add: hs_loop.simps [of stage] hs_keeps_def)
    next
      case (Fault f)
      with True "1.prems" show ?thesis
        by (simp add: hs_loop.simps [of stage])
    qed
  next
    case False
    with "1.prems" show ?thesis
      by (auto simp: hs_loop.simps [of stage] split: if_splits)
  qed
qed

text \<open>A handshake that succeeds leaves \<open>doublebuf\<close> with \<open>clientDataSize\<close> slots and
  \<open>data\<close> attached, and no call of the steady state changes either: this is the state
  the theorems about the steady state start from.\<close>

lemma attach_data_allocates:
  "attach_data c w = (c', w') \<Longrightarrow>
   data c' \<noteq> None \<and> doublebuf c' = doublebuf c \<and> clientDataSize c' = clientDataSize c"
  by (auto simp: attach_data_def split: option.splits)

lemma hs_body_allocated:
  assumes "hs_allocated stage c" and "hs_body stage c w = Continue stage' c' w'"
    and "stage \<noteq> CS_HS_DONE"
  shows "hs_allocated stage' c'"
proof -
  consider "stage = 0" | "stage = 1" | "stage = 2" | "stage = 3" | "4 < stage"
    using assms(3) by arith
  then show ?thesis
  proof cases
    case 1
    with assms show ?thesis
      by (auto simp: hs_body_def hs_target_def hs_allocated_def Let_def
          split: prod.splits if_splits)
  next
    case 2
    with assms show ?thesis
      by (auto simp: hs_body_def hs_datatype_def hs_allocated_def Let_def
          split: prod.splits if_splits)
  next
    case 3
    with assms show ?thesis
      by (auto simp: hs_body_def hs_datasize_def hs_allocated_def Let_def
          split: prod.splits if_splits)
  next
    case 4
    with assms show ?thesis
      by (auto simp: hs_body_def hs_name_def hs_allocated_def Let_def
          dest!: attach_data_allocates split: prod.splits if_splits)
  next
    case 5
    with assms show ?thesis
      by (simp add: hs_body_def)
  qed
qed

lemma hs_loop_allocated:
  "hs_allocated stage c \<Longrightarrow> hs_loop stage c w = Inr (0, c', w') \<Longrightarrow>
   doublebuf c' = Some (unat (clientDataSize c')) \<and> data c' \<noteq> None"
proof (induction stage c w rule: hs_loop.induct)
  case (1 stage c w)
  show ?case
  proof (cases "stage \<noteq> CS_HS_DONE \<and> noData c < NO_DATA_MAX_COUNT")
    case True
    show ?thesis
    proof (cases "hs_body stage c w")
      case (Continue stage' c1 w1)
      with True "1.prems" have "hs_loop stage' c1 w1 = Inr (0, c', w')"
        by (simp add: hs_loop.simps [of stage])
      moreover from "1.prems"(1) Continue True have "hs_allocated stage' c1"
        by (simp add: hs_body_allocated)
      ultimately show ?thesis
        using "1.IH" [OF True Continue] by simp
    next
      case (Return r c1 w1)
      with True have "hs_keeps c (Return r c1 w1)"
        using hs_body_keeps [of stage c w] by simp
      with Return True "1.prems" show ?thesis
        by (simp add: hs_loop.simps [of stage] hs_keeps_def)
    next
      case (Fault f)
      with True "1.prems" show ?thesis
        by (simp add: hs_loop.simps [of stage])
    qed
  next
    case False
    with "1.prems" show ?thesis
      by (auto simp: hs_loop.simps [of stage] hs_allocated_def split: if_splits)
  qed
qed

lemma handshake_allocates:
  "doHandshake c w = Inr (0, c', w') \<Longrightarrow>
   doublebuf c' = Some (unat (clientDataSize c')) \<and> data c' \<noteq> None"
  using hs_loop_allocated [of 0 "c\<lparr>noData := 0\<rparr>" w c' w']
  by (simp add: doHandshake_def hs_allocated_def)

text \<open>
  Claim C10. \<open>addNum\<close> and \<open>addData\<close> look at \<open>established\<close> and \<open>failed\<close> and
  return before they touch the buffer; \<open>getDataSize\<close> and \<open>popFront\<close> do not. The
  constructor leaves \<open>data\<close> null, and it is still null when a handshake that started
  with it null returns anything but success; on such a connection \<open>getDataSize\<close> and
  \<open>popFront\<close> dereference the null pointer.
\<close>

theorem accessors_need_buffer:
  "data SpineMLConnection = None \<and>
   (data c = None \<and> doHandshake c w = Inr (rc, c', w') \<and> rc \<noteq> 0 \<longrightarrow> data c' = None) \<and>
   (data c = None \<longrightarrow> getDataSize c = Inl NullPointer \<and> popFront c = Inl (NullPointer, c)) \<and>
   (\<not> established c \<or> failed c \<longrightarrow> addNum d c = Inr c \<and> addData ds n c = Inr c)"
proof -
  have "data c' = None" if "data c = None" "doHandshake c w = Inr (rc, c', w')" "rc \<noteq> 0"
    using hs_loop_outcome [of 0 "c\<lparr>noData := 0\<rparr>" w rc c' w'] that
    by (simp add: doHandshake_def)
  then show ?thesis
    by (auto simp: SpineMLConnection_def getDataSize_def popFront_def addNum_def addData_def)
qed

theorem accessors_need_buffer_witness:
  "doHandshake SpineMLConnection
     \<lparr>reads = [RdData [0]], writes = [], sent = [], errno = 0, dataCache = None, memory = 1024\<rparr>
   = Inr (- 1, SpineMLConnection\<lparr>failed := True\<rparr>,
       \<lparr>reads = [], writes = [], sent = [], errno = 0, dataCache = None, memory = 1024\<rparr>) \<and>
   data (SpineMLConnection\<lparr>failed := True\<rparr>) = None \<and>
   getDataSize (SpineMLConnection\<lparr>failed := True\<rparr>) = Inl NullPointer \<and>
   popFront (SpineMLConnection\<lparr>failed := True\<rparr>)
     = Inl (NullPointer, SpineMLConnection\<lparr>failed := True\<rparr>) \<and>
   addNum 1 (SpineMLConnection\<lparr>failed := True\<rparr>) = Inr (SpineMLConnection\<lparr>failed := True\<rparr>) \<and>
   addData [1] 1 (SpineMLConnection\<lparr>failed := True\<rparr>)
     = Inr (SpineMLConnection\<lparr>failed := True\<rparr>)"
proof -
  let ?w = "\<lparr>reads = [RdData [0]], writes = [], sent = [], errno = 0, dataCache = None, memory = 1024\<rparr>"
  let ?w' = "\<lparr>reads = [], writes = [], sent = [], errno = 0, dataCache = None, memory = 1024\<rparr>"
  let ?c' = "SpineMLConnection\<lparr>failed := True\<rparr>"
  have hs: "doHandshake SpineMLConnection ?w = Inr (- 1, ?c', ?w')"
    by (simp add: doHandshake_def hs_loop.simps [of 0] hs_body_def hs_target_def sys_read_def
        SpineMLConnection_def)
  have n: "data SpineMLConnection = None" "\<not> established ?c'"
    by (simp_all add: SpineMLConnection_def)
  from accessors_need_buffer [of SpineMLConnection ?w "- 1" ?c' ?w'] hs n
  have d: "data ?c' = None" by simp
  from accessors_need_buffer [of ?c' ?w 0 ?c' ?w 1 "[1]" 1] d n hs
  show ?thesis by simp
qed

subsection \<open>The steady state: reading\<close>

lemma sys_read_count:
  "sys_read n w = (b, buf, w1) \<Longrightarrow> b = - 1 \<and> buf = [] \<or> b = int (length buf)"
  by (auto simp: sys_read_def Let_def split: rd_event.splits list.splits)

text \<open>A \<open>doublebuf\<close> as the handshake allocates it takes a block.\<close>

lemma doublebuf_fits:
  "doublebuf c = Some (unat (clientDataSize c)) \<Longrightarrow> n \<le> 8 * unat (clientDataSize c) \<Longrightarrow>
   doublebuf_fault c n = None"
  by (simp add: doublebuf_fault_def)

lemma length_get_doubles: "length (get_doubles n bs) = n"
  by (induction n arbitrary: bs) simp_all

lemma nth_get_doubles:
  "i < n \<Longrightarrow> get_doubles n bs ! i = double_of_bytes (take 8 (drop (8 * i) bs))"
proof (induction n arbitrary: bs i)
  case 0
  then show ?case by simp
next
  case (Suc n)
  show ?case
  proof (cases i)
    case 0
    then show ?thesis by simp
  next
    case (Suc j)
    with Suc.prems have "j < n" by simp
    from Suc.IH [OF this, of "drop 8 bs"] Suc show ?thesis by (simp add: add.commute)
  qed
qed

text \<open>
  Claim C7. A tick of \<open>doReadFromClient\<close> whose \<open>read\<close> returns a complete block,
  \<open>clientDataSize * 8\<close> bytes, appends \<open>clientDataSize\<close> values to the back of the
  buffer, the \<open>i\<close>-th one made of the bytes \<open>8 i \<dots> 8 i + 7\<close> of the block, sets the
  stall counter to 0 and then writes the one byte \<open>RESP_RECVD\<close>. When that write does not
  transfer the byte, the call returns 1 if \<open>errno\<close> is \<open>ECONNRESET\<close> and \<open>-1\<close>
  otherwise; when it does, the call returns 0.
\<close>

theorem read_complete_block:
  assumes "doublebuf c = Some (unat (clientDataSize c))"
    and "data c = Some q"
    and "sys_read (8 * unat (clientDataSize c)) w = (int (8 * unat (clientDataSize c)), buf, w1)"
  shows "length (get_doubles (unat (clientDataSize c)) buf) = unat (clientDataSize c) \<and>
         (\<forall>i < unat (clientDataSize c).
            get_doubles (unat (clientDataSize c)) buf ! i
              = double_of_bytes (take 8 (drop (8 * i) buf))) \<and>
         doReadFromClient c w =
           (case sys_write [RESP_RECVD] (w1 :: world) of (n, w2) \<Rightarrow>
              if n = 1 then
                Inr (0, c\<lparr>data := Some (q @ get_doubles (unat (clientDataSize c)) buf),
                            noData := 0\<rparr>, w2)
              else if errno w2 = ECONNRESET then
                Inr (1, c\<lparr>data := Some (q @ get_doubles (unat (clientDataSize c)) buf),
                            noData := 0\<rparr>, w2)
              else
                Inr (- 1, c\<lparr>data := Some (q @ get_doubles (unat (clientDataSize c)) buf),
                              noData := 0\<rparr>, w2))"
proof -
  let ?vs = "get_doubles (unat (clientDataSize c)) buf"
  from sys_read_count [OF assms(3)]
  have "int (length buf) = int (8 * unat (clientDataSize c))"
    by linarith
  then have "length buf = 8 * unat (clientDataSize c)"
    by (rule int_int_eq [THEN iffD1])
  with assms
  have "doReadFromClient c w = write_recvd (c\<lparr>data := Some (q @ ?vs), noData := 0\<rparr>) w1"
    by (simp add: doReadFromClient_def doublebuf_fits push_all_Some)
  then show ?thesis
    by (simp add: write_recvd_def length_get_doubles nth_get_doubles split: prod.splits)
qed

theorem read_complete_block_witness:
  "doReadFromClient
     (SpineMLConnection\<lparr>established := True, clientDataDirection := AM_SOURCE,
        clientDataSize := 2, data := Some [5], doublebuf := Some 2\<rparr>)
     \<lparr>reads = [RdData [1, 0, 0, 0, 0, 0, 0, 0, 2, 0, 0, 0, 0, 0, 0, 0]], writes = [],
      sent = [], errno = 0, dataCache = None, memory = 1024\<rparr>
   = Inr (0,
       SpineMLConnection\<lparr>established := True, clientDataDirection := AM_SOURCE,
         clientDataSize := 2, data := Some [5, 1, 2], doublebuf := Some 2\<rparr>,
       \<lparr>reads = [], writes = [], sent = [[RESP_RECVD]], errno = 0, dataCache = None, memory = 1024\<rparr>) \<and>
   doReadFromClient
     (SpineMLConnection\<lparr>established := True, clientDataDirection := AM_SOURCE,
        clientDataSize := 2, data := Some [5], doublebuf := Some 2\<rparr>)
     \<lparr>reads = [RdData [1, 0, 0, 0, 0, 0, 0, 0, 2, 0, 0, 0, 0, 0, 0, 0]],
      writes = [WrErr ECONNRESET], sent = [], errno = 0, dataCache = None, memory = 1024\<rparr>
   = Inr (1,
       SpineMLConnection\<lparr>established := True, clientDataDirection := AM_SOURCE,
         clientDataSize := 2, data := Some [5, 1, 2], doublebuf := Some 2\<rparr>,
       \<lparr>reads = [], writes = [], sent = [], errno = ECONNRESET, dataCache = None, memory = 1024\<rparr>) \<and>
   doReadFromClient
     (SpineMLConnection\<lparr>established := True, clientDataDirection := AM_SOURCE,
        clientDataSize := 2, data := Some [5], doublebuf := Some 2\<rparr>)
     \<lparr>reads = [RdData [1, 0, 0, 0, 0, 0, 0, 0, 2, 0, 0, 0, 0, 0, 0, 0]],
      writes = [WrErr 32], sent = [], errno = 0, dataCache = None, memory = 1024\<rparr>
   = Inr (- 1,
       SpineMLConnection\<lparr>established := True, clientDataDirection := AM_SOURCE,
         clientDataSize := 2, data := Some [5, 1, 2], doublebuf := Some 2\<rparr>,
       \<lparr>reads = [], writes = [], sent = [], errno = 32, dataCache = None, memory = 1024\<rparr>)"
proof -
  let ?c = "SpineMLConnection\<lparr>established := True, clientDataDirection := AM_SOURCE,
        clientDataSize := 2, data := Some [5], doublebuf := Some 2\<rparr>"
  let ?buf = "[1, 0, 0, 0, 0, 0, 0, 0, 2, 0, 0, 0, 0, 0, 0, 0] :: byte list"
  have h1: "doublebuf ?c = Some (unat (clientDataSize ?c))"
    by simp
  have h2: "data ?c = Some [5]"
    by simp
  have h3: "sys_read (8 * unat (clientDataSize ?c))
        \<lparr>reads = [RdData ?buf], writes = ws, sent = [], errno = 0, dataCache = None, memory = 1024\<rparr>
      = (int (8 * unat (clientDataSize ?c)), ?buf,
         \<lparr>reads = [], writes = ws, sent = [], errno = 0, dataCache = None, memory = 1024\<rparr>)" for ws
    by (simp add: sys_read_def)
  have g: "get_doubles 2 ?buf = [1, 2]"
    unfolding numeral_2_eq_2 by (simp add: double_of_bytes_def)
  from read_complete_block [OF h1 h2 h3 [of "[]"]]
    read_complete_block [OF h1 h2 h3 [of "[WrErr ECONNRESET]"]]
    read_complete_block [OF h1 h2 h3 [of "[WrErr 32]"]]
  show ?thesis
    by (simp add: g sys_write_def SpineMLConnection_def)
qed

text \<open>A \<open>read\<close> that returns some bytes but fewer than a block: \<open>doReadFromClient\<close>
  goes on to write \<open>RESP_RECVD\<close> with the connection as it was. And whatever the
  \<open>read\<close> returns, the buffer is left alone or gets one whole block.\<close>

lemma read_partial_block_falls_through:
  assumes "sys_read (8 * unat (clientDataSize c)) w = (b, buf, w1)"
    and "doublebuf_fault c (length buf) = None"
    and "0 < b" and "b < int (8 * unat (clientDataSize c))"
  shows "doReadFromClient c w = write_recvd c w1"
  using assms by (simp add: doReadFromClient_def)

lemma write_recvd_data: "write_recvd c w = Inr (rc, c', w') \<Longrightarrow> c' = c"
  by (auto simp: write_recvd_def split: prod.splits if_splits)

lemma read_extends_buffer_by_blocks_only:
  assumes "doReadFromClient c w = Inr (rc, c', w')"
  shows "data c' = data c \<or>
         (\<exists>q vs. data c = Some q \<and> data c' = Some (q @ vs) \<and>
            length vs = unat (clientDataSize c) \<and>
            fst (sys_read (8 * unat (clientDataSize c)) w) = int (8 * unat (clientDataSize c)))"
proof -
  obtain b buf w1 where r: "sys_read (8 * unat (clientDataSize c)) w = (b, buf, w1)"
    by (cases "sys_read (8 * unat (clientDataSize c)) w") auto
  show ?thesis
  proof (cases "\<not> b < 0 \<and> b = int (8 * unat (clientDataSize c))")
    case False
    with assms r show ?thesis
      by (auto simp: doReadFromClient_def Let_def dest: write_recvd_data
          split: option.splits if_splits)
  next
    case True
    show ?thesis
    proof (cases "data c")
      case None
      with assms r True show ?thesis
        by (cases "get_doubles (unat (clientDataSize c)) buf")
          (auto simp: doReadFromClient_def Let_def push_back_def dest: write_recvd_data
            split: option.splits)
    next
      case (Some q)
      with assms r True
      have "c' = c\<lparr>data := Some (q @ get_doubles (unat (clientDataSize c)) buf), noData := 0\<rparr>"
        by (auto simp: doReadFromClient_def Let_def push_all_Some dest: write_recvd_data
            split: option.splits)
      with Some r True show ?thesis
        by (simp add: length_get_doubles)
    qed
  qed
qed

lemma doReadFromClient_keeps_buffers:
  assumes "doReadFromClient c w = Inr (rc, c', w')" and "data c \<noteq> None"
  shows "doublebuf c' = doublebuf c \<and> clientDataSize c' = clientDataSize c \<and> data c' \<noteq> None"
proof -
  from assms(2) obtain q where q: "data c = Some q"
    by auto
  obtain b buf w1 where r: "sys_read (8 * unat (clientDataSize c)) w = (b, buf, w1)"
    by (cases "sys_read (8 * unat (clientDataSize c)) w") auto
  from assms(1) q r show ?thesis
    by (auto simp: doReadFromClient_def Let_def push_all_Some dest!: write_recvd_data
        split: option.splits if_splits)
qed

text \<open>
  Claim C3. The claim: a \<open>read\<close> in \<open>doReadFromClient\<close> that returns some bytes but
  fewer than a block is fatal. The code: with one double per block and a \<open>read\<close> that
  returns 4 bytes, the call drops the bytes, leaves the buffer alone, writes
  \<open>RESP_RECVD\<close> and returns 0.
\<close>

theorem partial_block_read_acknowledged:
  "doReadFromClient
     (SpineMLConnection\<lparr>established := True, clientDataDirection := AM_SOURCE,
        data := Some [], doublebuf := Some 1\<rparr>)
     \<lparr>reads = [RdData [1, 2, 3, 4]], writes = [], sent = [], errno = 0, dataCache = None, memory = 1024\<rparr>
   = Inr (0,
       SpineMLConnection\<lparr>established := True, clientDataDirection := AM_SOURCE,
         data := Some [], doublebuf := Some 1\<rparr>,
       \<lparr>reads = [], writes = [], sent = [[RESP_RECVD]], errno = 0, dataCache = None, memory = 1024\<rparr>)"
  by (simp add: doReadFromClient_def doublebuf_fault_def write_recvd_def sys_read_def
      sys_write_def SpineMLConnection_def)

subsection \<open>The steady state: writing\<close>

lemma drain_take_drop: "n \<le> length q \<Longrightarrow> drain n q = Inr (take n q, drop n q)"
proof (induction n arbitrary: q)
  case 0
  then show ?case by simp
next
  case (Suc n)
  then obtain x q' where "q = x # q'" by (cases q) auto
  with Suc show ?case by simp
qed

lemma length_put_doubles: "length (put_doubles ds) = 8 * length ds"
  by (induction ds) (simp_all add: put_doubles_def bytes_of_double_def)

text \<open>
  Claim C6. A tick of \<open>doWriteToClient\<close> with no acknowledgement pending. With at
  least \<open>clientDataSize\<close> values in the buffer, it takes exactly that many from the front,
  in order, and hands them to one \<open>write\<close> as a block of \<open>clientDataSize * 8\<close> bytes;
  when the \<open>write\<close> transfers the whole block, \<open>unacknowledgedDataSent\<close> is set, the
  stall counter is 0 and the call returns 0; when it transfers less, or fails, the call
  returns \<open>-1\<close>. With fewer values in the buffer nothing is written: the call adds one to
  the stall counter and returns 0, or, with the counter at the ceiling, returns 1.
\<close>

theorem write_tick_no_ack_pending:
  assumes "\<not> unacknowledgedDataSent c"
    and "data c = Some q"
    and "doublebuf c = Some (unat (clientDataSize c))"
  shows "(unat (clientDataSize c) \<le> length q \<longrightarrow>
            length (put_doubles (take (unat (clientDataSize c)) q)) = unat (clientDataSize c) * 8 \<and>
            doWriteToClient c w =
              (case sys_write (put_doubles (take (unat (clientDataSize c)) q)) w of (n, w1) \<Rightarrow>
                 if n = int (unat (clientDataSize c) * 8) then
                   Inr (0, c\<lparr>data := Some (drop (unat (clientDataSize c)) q),
                               unacknowledgedDataSent := True, noData := 0\<rparr>, w1)
                 else Inr (- 1, c\<lparr>data := Some (drop (unat (clientDataSize c)) q)\<rparr>, w1))) \<and>
         (length q < unat (clientDataSize c) \<longrightarrow>
            doWriteToClient c w =
              (if noData c \<ge> NO_DATA_MAX_COUNT then Inr (1, c, w)
               else Inr (0, c\<lparr>noData := noData c + 1\<rparr>, w)))"
  using assms
  by (simp add: doWriteToClient_def write_batch_def doublebuf_fits drain_take_drop
      length_put_doubles split: prod.splits)

theorem write_tick_no_ack_pending_witness:
  "doWriteToClient
     (SpineMLConnection\<lparr>clientDataSize := 2, data := Some [1, 2, 3], doublebuf := Some 2\<rparr>)
     \<lparr>reads = [], writes = [], sent = [], errno = 0, dataCache = None, memory = 1024\<rparr>
   = Inr (0,
       SpineMLConnection\<lparr>unacknowledgedDataSent := True, clientDataSize := 2,
         data := Some [3], doublebuf := Some 2\<rparr>,
       \<lparr>reads = [], writes = [],
        sent = [[1, 0, 0, 0, 0, 0, 0, 0, 2, 0, 0, 0, 0, 0, 0, 0]], errno = 0,
        dataCache = None, memory = 1024\<rparr>) \<and>
   doWriteToClient
     (SpineMLConnection\<lparr>clientDataSize := 2, data := Some [1, 2, 3], doublebuf := Some 2\<rparr>)
     \<lparr>reads = [], writes = [WrCount 10], sent = [], errno = 0, dataCache = None, memory = 1024\<rparr>
   = Inr (- 1,
       SpineMLConnection\<lparr>clientDataSize := 2, data := Some [3], doublebuf := Some 2\<rparr>,
       \<lparr>reads = [], writes = [], sent = [[1, 0, 0, 0, 0, 0, 0, 0, 2, 0]], errno = 0,
        dataCache = None, memory = 1024\<rparr>) \<and>
   doWriteToClient
     (SpineMLConnection\<lparr>clientDataSize := 2, data := Some [1], doublebuf := Some 2\<rparr>)
     \<lparr>reads = [], writes = [], sent = [], errno = 0, dataCache = None, memory = 1024\<rparr>
   = Inr (0,
       SpineMLConnection\<lparr>noData := 1, clientDataSize := 2, data := Some [1],
         doublebuf := Some 2\<rparr>,
       \<lparr>reads = [], writes = [], sent = [], errno = 0, dataCache = None, memory = 1024\<rparr>) \<and>
   doWriteToClient
     (SpineMLConnection\<lparr>noData := 100, clientDataSize := 2, data := Some [1],
        doublebuf := Some 2\<rparr>)
     \<lparr>reads = [], writes = [], sent = [], errno = 0, dataCache = None, memory = 1024\<rparr>
   = Inr (1,
       SpineMLConnection\<lparr>noData := 100, clientDataSize := 2, data := Some [1],
         doublebuf := Some 2\<rparr>,
       \<lparr>reads = [], writes = [], sent = [], errno = 0, dataCache = None, memory = 1024\<rparr>)"
proof -
  let ?w = "\<lparr>reads = [], writes = [], sent = [], errno = 0, dataCache = None, memory = 1024\<rparr>"
  let ?v = "\<lparr>reads = [], writes = [WrCount 10], sent = [], errno = 0, dataCache = None, memory = 1024\<rparr>"
  let ?c = "SpineMLConnection\<lparr>clientDataSize := 2, data := Some [1, 2, 3],
    doublebuf := Some 2\<rparr>"
  let ?d = "SpineMLConnection\<lparr>clientDataSize := 2, data := Some [1], doublebuf := Some 2\<rparr>"
  let ?e = "SpineMLConnection\<lparr>noData := 100, clientDataSize := 2, data := Some [1],
    doublebuf := Some 2\<rparr>"
  have c: "\<not> unacknowledgedDataSent ?c" "data ?c = Some [1, 2, 3]"
    "doublebuf ?c = Some (unat (clientDataSize ?c))"
    by (simp_all add: SpineMLConnection_def)
  have d: "\<not> unacknowledgedDataSent ?d" "data ?d = Some [1]"
    "doublebuf ?d = Some (unat (clientDataSize ?d))"
    by (simp_all add: SpineMLConnection_def)
  have e: "\<not> unacknowledgedDataSent ?e" "data ?e = Some [1]"
    "doublebuf ?e = Some (unat (clientDataSize ?e))"
    by (simp_all add: SpineMLConnection_def)
  have p: "put_doubles [1, 2] = [1, 0, 0, 0, 0, 0, 0, 0, 2, 0, 0, 0, 0, 0, 0, 0]"
    by (simp add: put_doubles_def bytes_of_double_def upt_rec)
  from write_tick_no_ack_pending [OF c, of ?w] write_tick_no_ack_pending [OF c, of ?v]
    write_tick_no_ack_pending [OF d, of ?w] write_tick_no_ack_pending [OF e, of ?w]
  show ?thesis
    by (simp add: p sys_write_def SpineMLConnection_def)
qed

lemma sys_read_sent: "sys_read n w = (b, buf, w1) \<Longrightarrow> sent w1 = sent w"
  by (auto simp: sys_read_def Let_def split: rd_event.splits list.splits)

lemma one_byte: "int (length buf) = 1 \<Longrightarrow> buf = [buf ! 0]"
  by (cases buf) simp_all

lemma write_batch_keeps_buffers:
  assumes "write_batch c w = Inr (rc, c', w')"
  shows "doublebuf c' = doublebuf c \<and> clientDataSize c' = clientDataSize c \<and> data c' \<noteq> None"
proof (cases "data c")
  case None
  with assms show ?thesis by (simp add: write_batch_def)
next
  case (Some q)
  show ?thesis
  proof (cases "unat (clientDataSize c) \<le> length q")
    case False
    with Some assms show ?thesis
      by (auto simp: write_batch_def split: if_splits)
  next
    case True
    with Some assms show ?thesis
      by (auto simp: write_batch_def drain_take_drop Let_def
          split: option.splits if_splits prod.splits)
  qed
qed

lemma doWriteToClient_keeps_buffers:
  assumes "doWriteToClient c w = Inr (rc, c', w')" and "data c \<noteq> None"
  shows "doublebuf c' = doublebuf c \<and> clientDataSize c' = clientDataSize c \<and> data c' \<noteq> None"
proof (cases "unacknowledgedDataSent c")
  case False
  with assms write_batch_keeps_buffers [of c w rc c' w'] show ?thesis
    by (simp add: doWriteToClient_def)
next
  case True
  obtain b buf w1 where r: "sys_read 1 w = (b, buf, w1)"
    by (cases "sys_read 1 w") auto
  show ?thesis
  proof (cases "b = 1 \<and> buf ! 0 = RESP_RECVD")
    case ack: True
    with True r assms
    have "write_batch (c\<lparr>unacknowledgedDataSent := False, noData := 0\<rparr>) w1
        = Inr (rc, c', w')"
      by (simp add: doWriteToClient_def)
    from write_batch_keeps_buffers [OF this] show ?thesis
      by simp
  next
    case False
    with True r assms show ?thesis
      by (auto simp: doWriteToClient_def split: if_splits)
  qed
qed

lemma sys_read_bytes:
  "sys_read n w = (b, buf, w1) \<Longrightarrow>
   script_bytes (reads w1) + length buf = script_bytes (reads w)"
  by (auto simp: sys_read_def Let_def split: rd_event.splits list.splits if_splits)

lemma sys_write_log:
  "sys_write bs w = (n, w1) \<Longrightarrow>
   reads w1 = reads w \<and>
   (n = - 1 \<and> sent w1 = sent w \<or> 0 \<le> n \<and> length (sent w1) = length (sent w) + 1)"
  by (auto simp: sys_write_def Let_def split: wr_event.splits list.splits)

lemma write_batch_in_flight:
  assumes "write_batch c w = Inr (rc, c', w')" and "\<not> unacknowledgedDataSent c"
  shows "reads w' = reads w \<and> length (sent w') \<le> length (sent w) + 1 \<and>
         (rc = 0 \<longrightarrow>
            length (sent w') = length (sent w) + of_bool (unacknowledgedDataSent c'))"
proof (cases "data c")
  case None
  with assms show ?thesis by (simp add: write_batch_def)
next
  case (Some q)
  show ?thesis
  proof (cases "unat (clientDataSize c) \<le> length q")
    case False
    with Some assms show ?thesis
      by (auto simp: write_batch_def split: if_splits)
  next
    case True
    obtain n w1 where sw: "sys_write (put_doubles (take (unat (clientDataSize c)) q)) w = (n, w1)"
      by (cases "sys_write (put_doubles (take (unat (clientDataSize c)) q)) w") auto
    have "0 \<le> uint (clientDataSize c)"
      by simp
    then have "uint (clientDataSize c) * 8 \<noteq> - 1"
      by arith
    with sys_write_log [OF sw] Some True assms sw show ?thesis
      by (auto simp: write_batch_def drain_take_drop Let_def split: option.splits if_splits)
  qed
qed

lemma doWriteToClient_ack_pending:
  assumes "unacknowledgedDataSent c" and "data c = Some q"
    and "doublebuf c = Some (unat (clientDataSize c))"
  shows "doWriteToClient c w =
        (case sys_read 1 w of (b, buf, w1) \<Rightarrow>
           if b = 1 \<and> buf = [RESP_RECVD] then
             if unat (clientDataSize c) \<le> length q then
               (case sys_write (put_doubles (take (unat (clientDataSize c)) q)) w1 of (n, w2) \<Rightarrow>
                  if n = int (unat (clientDataSize c) * 8) then
                    Inr (0, c\<lparr>data := Some (drop (unat (clientDataSize c)) q),
                                unacknowledgedDataSent := True, noData := 0\<rparr>, w2)
                  else
                    Inr (- 1, c\<lparr>data := Some (drop (unat (clientDataSize c)) q),
                                  unacknowledgedDataSent := False, noData := 0\<rparr>, w2))
             else Inr (0, c\<lparr>unacknowledgedDataSent := False, noData := 1\<rparr>, w1)
           else if b = 1 then Inr (- 1, c, w1)
           else if b = 0 \<and> noData c < NO_DATA_MAX_COUNT then
             Inr (0, c\<lparr>noData := noData c + 1\<rparr>, w1)
           else if b = 0 \<and> noData c = NO_DATA_MAX_COUNT then
             if errno w1 = 0 then Inr (1, c, w1) else Inr (- 1, c, w1)
           else
             if errno w1 = ECONNRESET then Inr (1, c, w1) else Inr (- 1, c, w1))"
proof -
  obtain b buf w1 where r: "sys_read 1 w = (b, buf, w1)"
    by (cases "sys_read 1 w") auto
  show ?thesis
  proof (cases "b = 1")
    case True
    with sys_read_count [OF r] one_byte [of buf] have buf: "buf = [buf ! 0]"
      by auto
    then have e: "(buf = [RESP_RECVD]) = (buf ! 0 = RESP_RECVD)"
      by (metis nth_Cons_0)
    from assms have d: "doublebuf_fault (c\<lparr>unacknowledgedDataSent := False, noData := 0\<rparr>)
        (8 * unat (clientDataSize c)) = None"
      by (simp add: doublebuf_fault_def)
    from True assms r d show ?thesis
      by (simp add: doWriteToClient_def write_batch_def e drain_take_drop split: prod.splits)
  next
    case False
    with assms r show ?thesis
      by (simp add: doWriteToClient_def)
  qed
qed

lemma doWriteToClient_in_flight:
  assumes "doWriteToClient c w = Inr (rc, c', w')"
  shows "length (sent w') \<le> length (sent w) + 1 \<and>
      (unacknowledgedDataSent c \<and> sent w' \<noteq> sent w \<longrightarrow>
         fst (sys_read 1 w) = 1 \<and> fst (snd (sys_read 1 w)) = [RESP_RECVD]) \<and>
      length (sent w') + script_bytes (reads w') + of_bool (unacknowledgedDataSent c)
        \<le> length (sent w) + script_bytes (reads w) + 1 \<and>
      (rc = 0 \<longrightarrow>
         length (sent w') + script_bytes (reads w') + of_bool (unacknowledgedDataSent c)
           = length (sent w) + script_bytes (reads w) + of_bool (unacknowledgedDataSent c'))"
proof (cases "unacknowledgedDataSent c")
  case False
  with assms write_batch_in_flight [of c w rc c' w'] show ?thesis
    by (simp add: doWriteToClient_def)
next
  case True
  obtain b buf w1 where r: "sys_read 1 w = (b, buf, w1)"
    by (cases "sys_read 1 w") auto
  note s = sys_read_sent [OF r]
  note y = sys_read_bytes [OF r]
  note k = sys_read_count [OF r]
  show ?thesis
  proof (cases "b = 1 \<and> buf ! 0 = RESP_RECVD")
    case ack: True
    with k one_byte [of buf] have buf: "buf = [RESP_RECVD]"
      by auto
    from ack True r assms
    have wb: "write_batch (c\<lparr>unacknowledgedDataSent := False, noData := 0\<rparr>) w1
        = Inr (rc, c', w')"
      by (simp add: doWriteToClient_def)
    from write_batch_in_flight [OF wb] True r ack buf s y show ?thesis
      by auto
  next
    case noack: False
    from noack True r assms
    have "sent w' = sent w1 \<and> reads w' = reads w1 \<and>
        (rc = 0 \<longrightarrow> unacknowledgedDataSent c' \<and> b = 0)"
      by (auto simp: doWriteToClient_def split: if_splits)
    with True s y k show ?thesis
      by auto
  qed
qed

lemma ticks_in_flight:
  "ticks doWriteToClient n c w = Inr (rc, c', w') \<Longrightarrow>
      length (sent w') + script_bytes (reads w') + of_bool (unacknowledgedDataSent c)
        \<le> length (sent w) + script_bytes (reads w) + 1 \<and>
      (rc = 0 \<longrightarrow>
         length (sent w') + script_bytes (reads w') + of_bool (unacknowledgedDataSent c)
           = length (sent w) + script_bytes (reads w) + of_bool (unacknowledgedDataSent c'))"
proof (induction n arbitrary: c w)
  case 0
  then show ?case by auto
next
  case (Suc n)
  then obtain r1 c1 w1 where t: "doWriteToClient c w = Inr (r1, c1, w1)"
    by (cases "doWriteToClient c w") auto
  note a = doWriteToClient_in_flight [OF t]
  show ?case
  proof (cases "r1 = 0")
    case True
    with Suc.prems t have "ticks doWriteToClient n c1 w1 = Inr (rc, c', w')"
      by simp
    from Suc.IH [OF this] a True show ?thesis
      by auto
  next
    case False
    with Suc.prems t have "rc = r1" "c' = c1" "w' = w1"
      by simp_all
    with a False show ?thesis
      by simp
  qed
qed


text \<open>
  Claim C5. At most one batch is in flight. The batches written are the entries that
  the ticks add to \<open>sent\<close>, the acknowledgements read are the bytes that they take
  from \<open>reads\<close>.
  \<^item> A tick with \<open>unacknowledgedDataSent\<close> set starts with a \<open>read\<close> of one byte.
    Only when that is the byte \<open>RESP_RECVD\<close> does the tick go on to the buffer: with
    \<open>clientDataSize\<close> values there it makes one \<open>write\<close> of the batch and, when the
    block is transferred whole, returns 0 with the flag set again; with fewer values it
    writes nothing and returns 0 with the flag cleared. Any other byte makes it return
    \<open>-1\<close> with nothing written; no byte makes it return without a \<open>write\<close>, the flag
    still set.
  \<^item> Every tick makes at most one \<open>write\<close>, and one that started with the flag set
    has written only if it read \<open>RESP_RECVD\<close>. The writes of a tick are at most the
    bytes it read plus one, less one if the flag was set; when the tick returns 0 the
    flag afterwards is exactly that balance: the flag before, plus the writes, less the
    bytes read.
  \<^item> The same balance holds over any number of ticks in a row: the batches written
    never exceed the acknowledgements read by more than one, and by none when the run
    started with a batch in flight.
\<close>

theorem write_flow_control:
  "(unacknowledgedDataSent c \<and> data c = Some q \<and>
    doublebuf c = Some (unat (clientDataSize c)) \<longrightarrow>
      doWriteToClient c w =
        (case sys_read 1 w of (b, buf, w1) \<Rightarrow>
           if b = 1 \<and> buf = [RESP_RECVD] then
             if unat (clientDataSize c) \<le> length q then
               (case sys_write (put_doubles (take (unat (clientDataSize c)) q)) w1 of (n, w2) \<Rightarrow>
                  if n = int (unat (clientDataSize c) * 8) then
                    Inr (0, c\<lparr>data := Some (drop (unat (clientDataSize c)) q),
                                unacknowledgedDataSent := True, noData := 0\<rparr>, w2)
                  else
                    Inr (- 1, c\<lparr>data := Some (drop (unat (clientDataSize c)) q),
                                  unacknowledgedDataSent := False, noData := 0\<rparr>, w2))
             else Inr (0, c\<lparr>unacknowledgedDataSent := False, noData := 1\<rparr>, w1)
           else if b = 1 then Inr (- 1, c, w1)
           else if b = 0 \<and> noData c < NO_DATA_MAX_COUNT then
             Inr (0, c\<lparr>noData := noData c + 1\<rparr>, w1)
           else if b = 0 \<and> noData c = NO_DATA_MAX_COUNT then
             if errno w1 = 0 then Inr (1, c, w1) else Inr (- 1, c, w1)
           else
             if errno w1 = ECONNRESET then Inr (1, c, w1) else Inr (- 1, c, w1))) \<and>
   (doWriteToClient c w = Inr (rc, c', w') \<longrightarrow>
      length (sent w') \<le> length (sent w) + 1 \<and>
      (unacknowledgedDataSent c \<and> sent w' \<noteq> sent w \<longrightarrow>
         fst (sys_read 1 w) = 1 \<and> fst (snd (sys_read 1 w)) = [RESP_RECVD]) \<and>
      length (sent w') + script_bytes (reads w') + of_bool (unacknowledgedDataSent c)
        \<le> length (sent w) + script_bytes (reads w) + 1 \<and>
      (rc = 0 \<longrightarrow>
         length (sent w') + script_bytes (reads w') + of_bool (unacknowledgedDataSent c)
           = length (sent w) + script_bytes (reads w) + of_bool (unacknowledgedDataSent c'))) \<and>
   (ticks doWriteToClient n c w = Inr (rn, cn, wn) \<longrightarrow>
      length (sent wn) + script_bytes (reads wn) + of_bool (unacknowledgedDataSent c)
        \<le> length (sent w) + script_bytes (reads w) + 1 \<and>
      (rn = 0 \<longrightarrow>
         length (sent wn) + script_bytes (reads wn) + of_bool (unacknowledgedDataSent c)
           = length (sent w) + script_bytes (reads w) + of_bool (unacknowledgedDataSent cn)))"
proof (intro conjI impI)
  assume "unacknowledgedDataSent c \<and> data c = Some q \<and>
    doublebuf c = Some (unat (clientDataSize c))"
  then show "doWriteToClient c w =
        (case sys_read 1 w of (b, buf, w1) \<Rightarrow>
           if b = 1 \<and> buf = [RESP_RECVD] then
             if unat (clientDataSize c) \<le> length q then
               (case sys_write (put_doubles (take (unat (clientDataSize c)) q)) w1 of (n, w2) \<Rightarrow>
                  if n = int (unat (clientDataSize c) * 8) then
                    Inr (0, c\<lparr>data := Some (drop (unat (clientDataSize c)) q),
                                unacknowledgedDataSent := True, noData := 0\<rparr>, w2)
                  else
                    Inr (- 1, c\<lparr>data := Some (drop (unat (clientDataSize c)) q),
                                  unacknowledgedDataSent := False, noData := 0\<rparr>, w2))
             else Inr (0, c\<lparr>unacknowledgedDataSent := False, noData := 1\<rparr>, w1)
           else if b = 1 then Inr (- 1, c, w1)
           else if b = 0 \<and> noData c < NO_DATA_MAX_COUNT then
             Inr (0, c\<lparr>noData := noData c + 1\<rparr>, w1)
           else if b = 0 \<and> noData c = NO_DATA_MAX_COUNT then
             if errno w1 = 0 then Inr (1, c, w1) else Inr (- 1, c, w1)
           else
             if errno w1 = ECONNRESET then Inr (1, c, w1) else Inr (- 1, c, w1))"
    by (intro doWriteToClient_ack_pending) simp_all
next
  assume t: "doWriteToClient c w = Inr (rc, c', w')"
  note a = doWriteToClient_in_flight [OF t]
  from a show "length (sent w') \<le> length (sent w) + 1"
    by simp
  from a show "length (sent w') + script_bytes (reads w') + of_bool (unacknowledgedDataSent c)
        \<le> length (sent w) + script_bytes (reads w) + 1"
    by simp
  {
    assume "unacknowledgedDataSent c \<and> sent w' \<noteq> sent w"
    with a show "fst (sys_read 1 w) = 1" "fst (snd (sys_read 1 w)) = [RESP_RECVD]"
      by simp_all
  }
  {
    assume "rc = 0"
    with a show "length (sent w') + script_bytes (reads w') + of_bool (unacknowledgedDataSent c)
           = length (sent w) + script_bytes (reads w) + of_bool (unacknowledgedDataSent c')"
      by simp
  }
next
  assume t: "ticks doWriteToClient n c w = Inr (rn, cn, wn)"
  note a = ticks_in_flight [OF t]
  from a show "length (sent wn) + script_bytes (reads wn) + of_bool (unacknowledgedDataSent c)
        \<le> length (sent w) + script_bytes (reads w) + 1"
    by simp
  {
    assume "rn = 0"
    with a show "length (sent wn) + script_bytes (reads wn) + of_bool (unacknowledgedDataSent c)
           = length (sent w) + script_bytes (reads w) + of_bool (unacknowledgedDataSent cn)"
      by simp
  }
qed

theorem write_flow_control_witness:
  "doWriteToClient
     (SpineMLConnection\<lparr>unacknowledgedDataSent := True, data := Some [9], doublebuf := Some 1\<rparr>)
     \<lparr>reads = [RdData [RESP_RECVD]], writes = [], sent = [], errno = 0, dataCache = None,
      memory = 1024\<rparr>
   = Inr (0,
       SpineMLConnection\<lparr>unacknowledgedDataSent := True, data := Some [], doublebuf := Some 1\<rparr>,
       \<lparr>reads = [], writes = [], sent = [[9, 0, 0, 0, 0, 0, 0, 0]], errno = 0,
        dataCache = None, memory = 1024\<rparr>) \<and>
   doWriteToClient
     (SpineMLConnection\<lparr>unacknowledgedDataSent := True, data := Some [9], doublebuf := Some 1\<rparr>)
     \<lparr>reads = [RdData [43]], writes = [], sent = [], errno = 0, dataCache = None,
      memory = 1024\<rparr>
   = Inr (- 1,
       SpineMLConnection\<lparr>unacknowledgedDataSent := True, data := Some [9], doublebuf := Some 1\<rparr>,
       \<lparr>reads = [], writes = [], sent = [], errno = 0, dataCache = None, memory = 1024\<rparr>) \<and>
   doWriteToClient
     (SpineMLConnection\<lparr>unacknowledgedDataSent := True, data := Some [9], doublebuf := Some 1\<rparr>)
     \<lparr>reads = [RdData []], writes = [], sent = [], errno = 0, dataCache = None,
      memory = 1024\<rparr>
   = Inr (0,
       SpineMLConnection\<lparr>unacknowledgedDataSent := True, noData := 1, data := Some [9],
         doublebuf := Some 1\<rparr>,
       \<lparr>reads = [], writes = [], sent = [], errno = 0, dataCache = None, memory = 1024\<rparr>) \<and>
   doWriteToClient
     (SpineMLConnection\<lparr>unacknowledgedDataSent := True, data := Some [], doublebuf := Some 1\<rparr>)
     \<lparr>reads = [RdData [RESP_RECVD]], writes = [], sent = [], errno = 0, dataCache = None,
      memory = 1024\<rparr>
   = Inr (0,
       SpineMLConnection\<lparr>unacknowledgedDataSent := False, noData := 1, data := Some [],
         doublebuf := Some 1\<rparr>,
       \<lparr>reads = [], writes = [], sent = [], errno = 0, dataCache = None, memory = 1024\<rparr>) \<and>
   ticks doWriteToClient 3
     (SpineMLConnection\<lparr>data := Some [1, 2], doublebuf := Some 1\<rparr>)
     \<lparr>reads = [RdData [RESP_RECVD], RdData [RESP_RECVD]], writes = [], sent = [], errno = 0,
      dataCache = None, memory = 1024\<rparr>
   = Inr (0,
       SpineMLConnection\<lparr>noData := 1, data := Some [], doublebuf := Some 1\<rparr>,
       \<lparr>reads = [], writes = [],
        sent = [[1, 0, 0, 0, 0, 0, 0, 0], [2, 0, 0, 0, 0, 0, 0, 0]], errno = 0,
        dataCache = None, memory = 1024\<rparr>) \<and>
   length [[1, 0, 0, 0, 0, 0, 0, 0], [2, 0, 0, 0, 0, 0, 0, 0 :: byte]] + script_bytes [] + of_bool False
     = length ([] :: byte list list) + script_bytes [RdData [RESP_RECVD], RdData [RESP_RECVD]]
       + of_bool False"
proof -
  let ?c = "SpineMLConnection\<lparr>unacknowledgedDataSent := True, data := Some [9],
    doublebuf := Some 1\<rparr>"
  let ?e = "SpineMLConnection\<lparr>unacknowledgedDataSent := True, data := Some [],
    doublebuf := Some 1\<rparr>"
  let ?w = "\<lparr>reads = [RdData [RESP_RECVD]], writes = [], sent = [], errno = 0,
    dataCache = None, memory = 1024\<rparr>"
  let ?v = "\<lparr>reads = [RdData [43]], writes = [], sent = [], errno = 0, dataCache = None,
    memory = 1024\<rparr>"
  let ?u = "\<lparr>reads = [RdData []], writes = [], sent = [], errno = 0, dataCache = None,
    memory = 1024\<rparr>"
  let ?ca = "SpineMLConnection\<lparr>data := Some [1, 2], doublebuf := Some 1\<rparr>"
  let ?wa = "\<lparr>reads = [RdData [RESP_RECVD], RdData [RESP_RECVD]], writes = [], sent = [],
    errno = 0, dataCache = None, memory = 1024\<rparr>"
  let ?cz = "SpineMLConnection\<lparr>noData := 1, data := Some [], doublebuf := Some 1\<rparr>"
  let ?wz = "\<lparr>reads = [], writes = [],
    sent = [[1, 0, 0, 0, 0, 0, 0, 0], [2, 0, 0, 0, 0, 0, 0, 0 :: byte]], errno = 0,
    dataCache = None, memory = 1024\<rparr>"
  have p: "put_doubles [9] = [9, 0, 0, 0, 0, 0, 0, 0]"
    "put_doubles [1] = [1, 0, 0, 0, 0, 0, 0, 0]" "put_doubles [2] = [2, 0, 0, 0, 0, 0, 0, 0]"
    by (simp_all add: put_doubles_def bytes_of_double_def upt_rec)
  have h: "unacknowledgedDataSent ?c \<and> data ?c = Some [9] \<and>
      doublebuf ?c = Some (unat (clientDataSize ?c))"
    "unacknowledgedDataSent ?e \<and> data ?e = Some [] \<and>
      doublebuf ?e = Some (unat (clientDataSize ?e))"
    by (simp_all add: SpineMLConnection_def)
  have t: "ticks doWriteToClient 3 ?ca ?wa = Inr (0, ?cz, ?wz)"
    unfolding numeral_3_eq_3
    by (simp add: doWriteToClient_def write_batch_def doublebuf_fault_def sys_read_def
        sys_write_def SpineMLConnection_def p)
  from write_flow_control [where c = ?c and q = "[9]" and w = ?w] h
  have a1: "doWriteToClient ?c ?w = Inr (0, ?e, \<lparr>reads = [], writes = [], sent = [[9, 0, 0, 0, 0, 0, 0, 0]], errno = 0,
        dataCache = None, memory = 1024\<rparr>)"
    by (simp add: sys_read_def sys_write_def SpineMLConnection_def p)
  from write_flow_control [where c = ?c and q = "[9]" and w = ?v] h
  have a2: "doWriteToClient ?c ?v = Inr (- 1, ?c, \<lparr>reads = [], writes = [], sent = [], errno = 0, dataCache = None, memory = 1024\<rparr>)"
    by (simp add: sys_read_def sys_write_def SpineMLConnection_def p)
  from write_flow_control [where c = ?c and q = "[9]" and w = ?u] h
  have a3: "doWriteToClient ?c ?u = Inr (0, ?c\<lparr>noData := 1\<rparr>, \<lparr>reads = [], writes = [], sent = [], errno = 0, dataCache = None, memory = 1024\<rparr>)"
    by (simp add: sys_read_def sys_write_def SpineMLConnection_def p)
  from write_flow_control [where c = ?e and q = "[]" and w = ?w] h
  have a4: "doWriteToClient ?e ?w = Inr (0, ?e\<lparr>unacknowledgedDataSent := False, noData := 1\<rparr>, \<lparr>reads = [], writes = [], sent = [], errno = 0, dataCache = None, memory = 1024\<rparr>)"
    by (simp add: sys_read_def sys_write_def SpineMLConnection_def p)
  from 
    write_flow_control [where c = ?ca and w = ?wa and n = 3 and rn = 0 and cn = ?cz and wn = ?wz]
    a1 a2 a3 a4 t
  show ?thesis
    by (simp add: SpineMLConnection_def)
qed

subsection \<open>The stages of the handshake\<close>

text \<open>A \<open>read\<close> that finds no byte, at any stage, only adds one to the counter.\<close>

lemma sys_read_nothing:
  "sys_read n (w\<lparr>reads := RdData [] # rs\<rparr>) = (0, [], w\<lparr>reads := rs\<rparr>)"
  by (simp add: sys_read_def)

lemma hs_body_stall:
  assumes "stage < CS_HS_DONE"
  shows "hs_body stage c (w\<lparr>reads := RdData [] # rs\<rparr>)
           = Continue stage (c\<lparr>noData := noData c + 1\<rparr>) (w\<lparr>reads := rs\<rparr>)"
proof -
  from assms consider "stage = 0" | "stage = 1" | "stage = 2" | "stage = 3"
    by arith
  then show ?thesis
    by cases
      (simp_all add: hs_body_def hs_target_def hs_datatype_def hs_datasize_def hs_name_def
        sys_read_nothing)
qed



lemma sint_small: "unat (x :: 32 word) \<le> 1024 \<Longrightarrow> sint x = int (unat x)"
proof -
  assume "unat x \<le> 1024"
  then have "int (unat x) \<le> 1024"
    by linarith
  then have "uint x \<le> 1024"
    by simp
  then have "uint x < 2 ^ 31"
    by simp
  moreover have "(- (2 ^ 31) :: int) \<le> 0"
    by simp
  then have "- (2 ^ 31) \<le> uint x"
    by (rule order_trans) simp
  ultimately have "signed_take_bit 31 (uint x) = uint x"
    by (simp only: signed_take_bit_int_eq_self)
  then show ?thesis
    by (simp add: sint_uint)
qed

lemma sys_write_byte:
  "list_all wr_ok (take n (writes w)) \<Longrightarrow> 0 < n \<Longrightarrow>
   sys_write [x] w = (1, w\<lparr>writes := tl (writes w), sent := sent w @ [[x]]\<rparr>) \<and>
   list_all wr_ok (take (n - 1) (tl (writes w)))"
  by (cases "writes w"; cases n)
    (auto simp: sys_write_def wr_ok_def split: wr_event.splits)

lemma attach_data_only:
  "attach_data c w = (c', w') \<Longrightarrow>
   data c' \<noteq> None \<and> established c' = established c \<and> failed c' = failed c \<and>
   clientDataDirection c' = clientDataDirection c \<and> clientDataType c' = clientDataType c \<and>
   clientDataSize c' = clientDataSize c \<and> clientConnectionName c' = clientConnectionName c \<and>
   doublebuf c' = doublebuf c \<and> reads w' = reads w \<and> sent w' = sent w"
  by (auto simp: attach_data_def split: option.splits)

text \<open>A \<open>read\<close> that finds its piece whole returns it and leaves the rest of the
  script.\<close>

lemma sys_read_whole:
  "whole_read p (reads w) = Some rs' \<Longrightarrow> length p \<le> MAX_RW_COUNT \<Longrightarrow>
   sys_read (length p) w = (int (length p), p, w\<lparr>reads := rs'\<rparr>)"
  by (auto simp: whole_read_def sys_read_def Let_def min_def
      split: list.splits rd_event.splits if_splits)



text \<open>The zero-byte reads before a piece are passed over, each adding one to the
  counter.\<close>

lemma hs_body_stalled:
  assumes "stage < CS_HS_DONE" and "reads w = RdData [] # rs"
  shows "hs_body stage c w = Continue stage (c\<lparr>noData := noData c + 1\<rparr>) (w\<lparr>reads := rs\<rparr>)"
proof -
  from assms(2) have "w = w\<lparr>reads := RdData [] # rs\<rparr>"
    by simp
  then have "hs_body stage c w = hs_body stage c (w\<lparr>reads := RdData [] # rs\<rparr>)"
    by simp
  with hs_body_stall [OF assms(1), where c = c and w = w and rs = rs] show ?thesis
    by simp
qed

lemma hs_loop_skips_stalls:
  assumes "stage < CS_HS_DONE"
  shows "stalled_read k p (reads w) = Some rs' \<Longrightarrow> noData c + k < NO_DATA_MAX_COUNT \<Longrightarrow>
         \<exists>j rs0. whole_read p rs0 = Some rs' \<and> noData c + j < NO_DATA_MAX_COUNT \<and>
           hs_loop stage c w = hs_loop stage (c\<lparr>noData := noData c + j\<rparr>) (w\<lparr>reads := rs0\<rparr>)"
proof (induction k arbitrary: c w)
  case 0
  then have "whole_read p (reads w) = Some rs' \<and> noData c + 0 < NO_DATA_MAX_COUNT \<and>
      hs_loop stage c w = hs_loop stage (c\<lparr>noData := noData c + 0\<rparr>) (w\<lparr>reads := reads w\<rparr>)"
    by simp
  then show ?case by blast
next
  case (Suc k)
  show ?case
  proof (cases "reads w \<noteq> [] \<and> hd (reads w) = RdData []")
    case False
    with Suc.prems
    have "whole_read p (reads w) = Some rs' \<and> noData c + 0 < NO_DATA_MAX_COUNT \<and>
      hs_loop stage c w = hs_loop stage (c\<lparr>noData := noData c + 0\<rparr>) (w\<lparr>reads := reads w\<rparr>)"
      by auto
    then show ?thesis by blast
  next
    case True
    then obtain rs where rs: "reads w = RdData [] # rs"
      by (cases "reads w") auto
    with Suc.prems have s: "stalled_read k p (reads (w\<lparr>reads := rs\<rparr>)) = Some rs'"
      and n: "noData (c\<lparr>noData := noData c + 1\<rparr>) + k < NO_DATA_MAX_COUNT"
      by simp_all
    from Suc.IH [OF s n] obtain j rs0 where j: "whole_read p rs0 = Some rs'"
      "noData c + 1 + j < NO_DATA_MAX_COUNT"
      "hs_loop stage (c\<lparr>noData := noData c + 1\<rparr>) (w\<lparr>reads := rs\<rparr>)
         = hs_loop stage (c\<lparr>noData := noData c + 1 + j\<rparr>) (w\<lparr>reads := rs0\<rparr>)"
      by auto
    from Suc.prems assms
    have "hs_loop stage c w = hs_loop stage (c\<lparr>noData := noData c + 1\<rparr>) (w\<lparr>reads := rs\<rparr>)"
      by (subst hs_loop.simps) (simp add: hs_body_stalled [OF assms rs])
    with j have "whole_read p rs0 = Some rs' \<and> noData c + Suc j < NO_DATA_MAX_COUNT \<and>
        hs_loop stage c w = hs_loop stage (c\<lparr>noData := noData c + Suc j\<rparr>) (w\<lparr>reads := rs0\<rparr>)"
      by simp
    then show ?thesis by blast
  qed
qed


text \<open>The four stages, each from its first \<open>read\<close> to the start of the next: the
  stage ends with the counter back at 0, whatever it was.\<close>

lemma hs_loop_target:
  assumes rd: "stalled_read k [d] (reads w) = Some r" and n: "noData c + k < NO_DATA_MAX_COUNT"
    and dir: "d = AM_SOURCE \<or> d = AM_TARGET"
    and wr: "list_all wr_ok (take n (writes w))" "0 < n"
  shows "hs_loop CS_HS_GETTINGTARGET c w
           = hs_loop CS_HS_GETTINGDATATYPE (c\<lparr>clientDataDirection := d, noData := 0\<rparr>)
               (w\<lparr>reads := r, writes := tl (writes w), sent := sent w @ [[RESP_HELLO]]\<rparr>)"
proof -
  from hs_loop_skips_stalls [OF _ rd n, of 0]
  obtain j rs0 where j: "whole_read [d] rs0 = Some r" "noData c + j < NO_DATA_MAX_COUNT"
    "hs_loop 0 c w = hs_loop 0 (c\<lparr>noData := noData c + j\<rparr>) (w\<lparr>reads := rs0\<rparr>)"
    by auto
  have "sys_read 1 (w\<lparr>reads := rs0\<rparr>) = (1, [d], w\<lparr>reads := r\<rparr>)"
    using sys_read_whole [of "[d]" "w\<lparr>reads := rs0\<rparr>" r] j(1) by simp
  moreover have "sys_write [RESP_HELLO] (w\<lparr>reads := r\<rparr>)
      = (1, w\<lparr>reads := r, writes := tl (writes w), sent := sent w @ [[RESP_HELLO]]\<rparr>)"
    using sys_write_byte [of n "w\<lparr>reads := r\<rparr>" RESP_HELLO] wr by simp
  ultimately have "hs_target (c\<lparr>noData := noData c + j\<rparr>) (w\<lparr>reads := rs0\<rparr>)
      = Continue 1 (c\<lparr>clientDataDirection := d, noData := 0\<rparr>)
          (w\<lparr>reads := r, writes := tl (writes w), sent := sent w @ [[RESP_HELLO]]\<rparr>)"
    using dir by (auto simp: hs_target_def)
  with j(2) have "hs_loop 0 (c\<lparr>noData := noData c + j\<rparr>) (w\<lparr>reads := rs0\<rparr>)
      = hs_loop 1 (c\<lparr>clientDataDirection := d, noData := 0\<rparr>)
          (w\<lparr>reads := r, writes := tl (writes w), sent := sent w @ [[RESP_HELLO]]\<rparr>)"
    by (subst hs_loop.simps) (simp add: hs_body_def)
  with j(3) show ?thesis
    by simp
qed

lemma hs_loop_datatype:
  assumes rd: "stalled_read k [RESP_DATA_NUMS] (reads w) = Some r"
    and n: "noData c + k < NO_DATA_MAX_COUNT"
    and wr: "list_all wr_ok (take n (writes w))" "0 < n"
  shows "hs_loop CS_HS_GETTINGDATATYPE c w
           = hs_loop CS_HS_GETTINGDATASIZE (c\<lparr>clientDataType := RESP_DATA_NUMS, noData := 0\<rparr>)
               (w\<lparr>reads := r, writes := tl (writes w), sent := sent w @ [[RESP_RECVD]]\<rparr>)"
proof -
  from hs_loop_skips_stalls [OF _ rd n, of 1]
  obtain j rs0 where j: "whole_read [RESP_DATA_NUMS] rs0 = Some r"
    "noData c + j < NO_DATA_MAX_COUNT"
    "hs_loop 1 c w = hs_loop 1 (c\<lparr>noData := noData c + j\<rparr>) (w\<lparr>reads := rs0\<rparr>)"
    by auto
  have "sys_read 1 (w\<lparr>reads := rs0\<rparr>) = (1, [RESP_DATA_NUMS], w\<lparr>reads := r\<rparr>)"
    using sys_read_whole [of "[RESP_DATA_NUMS]" "w\<lparr>reads := rs0\<rparr>" r] j(1) by simp
  moreover have "sys_write [RESP_RECVD] (w\<lparr>reads := r\<rparr>)
      = (1, w\<lparr>reads := r, writes := tl (writes w), sent := sent w @ [[RESP_RECVD]]\<rparr>)"
    using sys_write_byte [of n "w\<lparr>reads := r\<rparr>" RESP_RECVD] wr by simp
  ultimately have "hs_datatype (c\<lparr>noData := noData c + j\<rparr>) (w\<lparr>reads := rs0\<rparr>)
      = Continue 2 (c\<lparr>clientDataType := RESP_DATA_NUMS, noData := 0\<rparr>)
          (w\<lparr>reads := r, writes := tl (writes w), sent := sent w @ [[RESP_RECVD]]\<rparr>)"
    by (simp add: hs_datatype_def)
  with j(2) have "hs_loop 1 (c\<lparr>noData := noData c + j\<rparr>) (w\<lparr>reads := rs0\<rparr>)
      = hs_loop 2 (c\<lparr>clientDataType := RESP_DATA_NUMS, noData := 0\<rparr>)
          (w\<lparr>reads := r, writes := tl (writes w), sent := sent w @ [[RESP_RECVD]]\<rparr>)"
    by (subst hs_loop.simps) (simp add: hs_body_def)
  with j(3) show ?thesis
    by simp
qed

lemma hs_loop_datasize:
  assumes rd: "stalled_read k sz (reads w) = Some r" and n: "noData c + k < NO_DATA_MAX_COUNT"
    and sz: "length sz = 4" and mem: "unat (le32 sz) \<le> memory w"
    and wr: "list_all wr_ok (take n (writes w))" "0 < n"
  shows "hs_loop CS_HS_GETTINGDATASIZE c w
           = hs_loop CS_HS_GETTINGNAME
               (c\<lparr>clientDataSize := le32 sz, doublebuf := Some (unat (le32 sz)), noData := 0\<rparr>)
               (w\<lparr>reads := r, writes := tl (writes w), sent := sent w @ [[RESP_RECVD]]\<rparr>)"
proof -
  from hs_loop_skips_stalls [OF _ rd n, of 2]
  obtain j rs0 where j: "whole_read sz rs0 = Some r" "noData c + j < NO_DATA_MAX_COUNT"
    "hs_loop 2 c w = hs_loop 2 (c\<lparr>noData := noData c + j\<rparr>) (w\<lparr>reads := rs0\<rparr>)"
    by auto
  have "sys_read 4 (w\<lparr>reads := rs0\<rparr>) = (4, sz, w\<lparr>reads := r\<rparr>)"
    using sys_read_whole [of sz "w\<lparr>reads := rs0\<rparr>" r] j(1) sz by simp
  moreover have "sys_write [RESP_RECVD] (w\<lparr>reads := r\<rparr>)
      = (1, w\<lparr>reads := r, writes := tl (writes w), sent := sent w @ [[RESP_RECVD]]\<rparr>)"
    using sys_write_byte [of n "w\<lparr>reads := r\<rparr>" RESP_RECVD] wr by simp
  ultimately have "hs_datasize (c\<lparr>noData := noData c + j\<rparr>) (w\<lparr>reads := rs0\<rparr>)
      = Continue 3
          (c\<lparr>clientDataSize := le32 sz, doublebuf := Some (unat (le32 sz)), noData := 0\<rparr>)
          (w\<lparr>reads := r, writes := tl (writes w), sent := sent w @ [[RESP_RECVD]]\<rparr>)"
    using mem by (simp add: hs_datasize_def)
  with j(2) have "hs_loop 2 (c\<lparr>noData := noData c + j\<rparr>) (w\<lparr>reads := rs0\<rparr>)
      = hs_loop 3
          (c\<lparr>clientDataSize := le32 sz, doublebuf := Some (unat (le32 sz)), noData := 0\<rparr>)
          (w\<lparr>reads := r, writes := tl (writes w), sent := sent w @ [[RESP_RECVD]]\<rparr>)"
    by (subst hs_loop.simps) (simp add: hs_body_def)
  with j(3) show ?thesis
    by simp
qed

lemma hs_loop_name:
  assumes rd: "stalled_read k ln (reads w) = Some r" and n: "noData c + k < NO_DATA_MAX_COUNT"
    and nr: "whole_read name r = Some rest"
    and ln: "length ln = 4" and nm: "unat (le32 ln) = length name" "length name \<le> 1024"
    and wr: "list_all wr_ok (take n (writes w))" "0 < n"
  shows "\<exists>c' w'. hs_loop CS_HS_GETTINGNAME c w = Inr (0, c', w') \<and> established c' \<and>
           clientConnectionName c' = takeWhile (\<lambda>x. x \<noteq> 0) name \<and> data c' \<noteq> None \<and>
           noData c' = 0 \<and> clientDataDirection c' = clientDataDirection c \<and>
           clientDataType c' = clientDataType c \<and> clientDataSize c' = clientDataSize c \<and>
           doublebuf c' = doublebuf c \<and> failed c' = failed c \<and>
           reads w' = rest \<and> sent w' = sent w @ [[RESP_RECVD]]"
proof -
  from hs_loop_skips_stalls [OF _ rd n, of 3]
  obtain j rs0 where j: "whole_read ln rs0 = Some r" "noData c + j < NO_DATA_MAX_COUNT"
    "hs_loop 3 c w = hs_loop 3 (c\<lparr>noData := noData c + j\<rparr>) (w\<lparr>reads := rs0\<rparr>)"
    by auto
  let ?c = "c\<lparr>noData := noData c + j\<rparr>"
  let ?w = "w\<lparr>reads := rest, writes := tl (writes w), sent := sent w @ [[RESP_RECVD]]\<rparr>"
  obtain c5 w5 where at:
    "attach_data (?c\<lparr>clientConnectionName := takeWhile (\<lambda>x. x \<noteq> 0) name\<rparr>) ?w = (c5, w5)"
    by (cases "attach_data (?c\<lparr>clientConnectionName := takeWhile (\<lambda>x. x \<noteq> 0) name\<rparr>) ?w") auto
  have "sys_read 4 (w\<lparr>reads := rs0\<rparr>) = (4, ln, w\<lparr>reads := r\<rparr>)"
    using sys_read_whole [of ln "w\<lparr>reads := rs0\<rparr>" r] j(1) ln by simp
  moreover have s: "sint (le32 ln) = int (length name)"
    using nm sint_small [of "le32 ln"] by simp
  moreover have "nat (int (length name) mod 2 ^ 64) = length name"
    using nm(2) by simp
  moreover have "sys_read (length name) (w\<lparr>reads := r\<rparr>)
      = (int (length name), name, w\<lparr>reads := rest\<rparr>)"
    using sys_read_whole [of name "w\<lparr>reads := r\<rparr>" rest] nr nm(2) by simp
  moreover have "sys_write [RESP_RECVD] (w\<lparr>reads := rest\<rparr>) = (1, ?w)"
    using sys_write_byte [of n "w\<lparr>reads := rest\<rparr>" RESP_RECVD] wr by simp
  ultimately have "hs_name ?c (w\<lparr>reads := rs0\<rparr>) = Continue 4 (c5\<lparr>noData := 0\<rparr>) w5"
    using nm(2) at by (simp add: hs_name_def)
  with j(2) have "hs_loop 3 ?c (w\<lparr>reads := rs0\<rparr>) = hs_loop 4 (c5\<lparr>noData := 0\<rparr>) w5"
    by (subst hs_loop.simps) (simp add: hs_body_def)
  also have "\<dots> = Inr (0, c5\<lparr>noData := 0, established := True\<rparr>, w5)"
    by (subst hs_loop.simps) simp
  finally have "hs_loop 3 c w = Inr (0, c5\<lparr>noData := 0, established := True\<rparr>, w5)"
    using j(3) by simp
  with attach_data_only [OF at] show ?thesis
    by simp
qed


text \<open>\<open>doHandshake\<close> up to the second, the third and the fourth stage.\<close>

lemma hs_to_datatype:
  assumes dir: "d = AM_SOURCE \<or> d = AM_TARGET"
    and wr: "list_all wr_ok (take 4 (writes w))"
    and r1: "stalled_read 99 [d] (reads w) = Some r1"
  shows "doHandshake c w
           = hs_loop CS_HS_GETTINGDATATYPE (c\<lparr>clientDataDirection := d, noData := 0\<rparr>)
               (w\<lparr>reads := r1, writes := tl (writes w), sent := sent w @ [[RESP_HELLO]]\<rparr>)"
proof -
  have "noData (c\<lparr>noData := 0\<rparr>) + 99 < NO_DATA_MAX_COUNT"
    by simp
  from hs_loop_target [OF r1 this dir wr] show ?thesis
    by (simp add: doHandshake_def)
qed

lemma hs_to_datasize:
  assumes dir: "d = AM_SOURCE \<or> d = AM_TARGET"
    and wr: "list_all wr_ok (take 4 (writes w))"
    and r1: "stalled_read 99 [d] (reads w) = Some r1"
    and r2: "stalled_read 99 [RESP_DATA_NUMS] r1 = Some r2"
  shows "doHandshake c w
           = hs_loop CS_HS_GETTINGDATASIZE
               (c\<lparr>clientDataDirection := d, clientDataType := RESP_DATA_NUMS, noData := 0\<rparr>)
               (w\<lparr>reads := r2, writes := tl (tl (writes w)),
                  sent := sent w @ [[RESP_HELLO], [RESP_RECVD]]\<rparr>)"
proof -
  let ?c = "c\<lparr>clientDataDirection := d, noData := 0\<rparr>"
  let ?w = "w\<lparr>reads := r1, writes := tl (writes w), sent := sent w @ [[RESP_HELLO]]\<rparr>"
  from sys_write_byte [OF wr]
  have a: "list_all wr_ok (take 3 (writes ?w))"
    by simp
  have "stalled_read 99 [RESP_DATA_NUMS] (reads ?w) = Some r2"
    "noData ?c + 99 < NO_DATA_MAX_COUNT"
    by (simp_all add: r2)
  from hs_loop_datatype [OF this a] hs_to_datatype [OF dir wr r1, of c] show ?thesis
    by simp
qed

lemma hs_to_name:
  assumes dir: "d = AM_SOURCE \<or> d = AM_TARGET"
    and wr: "list_all wr_ok (take 4 (writes w))"
    and r1: "stalled_read 99 [d] (reads w) = Some r1"
    and r2: "stalled_read 99 [RESP_DATA_NUMS] r1 = Some r2"
    and sz: "length sz = 4" and mem: "unat (le32 sz) \<le> memory w"
    and r3: "stalled_read 99 sz r2 = Some r3"
  shows "doHandshake c w
           = hs_loop CS_HS_GETTINGNAME
               (c\<lparr>clientDataDirection := d, clientDataType := RESP_DATA_NUMS,
                   clientDataSize := le32 sz, doublebuf := Some (unat (le32 sz)),
                   noData := 0\<rparr>)
               (w\<lparr>reads := r3, writes := tl (tl (tl (writes w))),
                  sent := sent w @ [[RESP_HELLO], [RESP_RECVD], [RESP_RECVD]]\<rparr>)"
proof -
  let ?c = "c\<lparr>clientDataDirection := d, clientDataType := RESP_DATA_NUMS, noData := 0\<rparr>"
  let ?w = "w\<lparr>reads := r2, writes := tl (tl (writes w)),
    sent := sent w @ [[RESP_HELLO], [RESP_RECVD]]\<rparr>"
  from sys_write_byte [OF wr]
  have "list_all wr_ok (take 3 (tl (writes w)))"
    by simp
  from sys_write_byte [of 3 "w\<lparr>writes := tl (writes w)\<rparr>"] this
  have a: "list_all wr_ok (take 2 (writes ?w))"
    by simp
  have "stalled_read 99 sz (reads ?w) = Some r3" "noData ?c + 99 < NO_DATA_MAX_COUNT"
    "length sz = 4" "unat (le32 sz) \<le> memory ?w"
    by (simp_all add: r3 sz mem)
  from hs_loop_datasize [OF this a] hs_to_datasize [OF dir wr r1 r2, of c] show ?thesis
    by simp
qed

lemma wr_ok_fourth:
  assumes "list_all wr_ok (take 4 (writes (w :: world)))"
  shows "list_all wr_ok (take 1 (tl (tl (tl (writes w)))))"
proof -
  from sys_write_byte [OF assms]
  have "list_all wr_ok (take 3 (tl (writes w)))"
    by simp
  from sys_write_byte [of 3 "w\<lparr>writes := tl (writes w)\<rparr>"] this
  have "list_all wr_ok (take 2 (tl (tl (writes w))))"
    by simp
  from sys_write_byte [of 2 "w\<lparr>writes := tl (tl (writes w))\<rparr>"] this
  show ?thesis
    by simp
qed

lemma stalled_read_numeral:
  "stalled_read (numeral k) p rs =
     (if rs \<noteq> [] \<and> hd rs = RdData [] then stalled_read (pred_numeral k) p (tl rs)
      else whole_read p rs)"
  by (simp add: numeral_eq_Suc)

subsection \<open>The stall ceiling\<close>









subsection \<open>The handshake on a well-formed and on an ill-formed byte sequence\<close>

text \<open>
  Claim C1, as stated, fails for a name with a zero byte in it: the client announces 3
  name bytes and sends \<open>a\<close>, zero, \<open>b\<close>; the handshake succeeds, and
  \<open>clientConnectionName\<close> is the one byte \<open>a\<close>, not the three bytes sent.
\<close>

theorem name_cut_at_zero_byte:
  "doHandshake SpineMLConnection
     \<lparr>reads = [RdData [AM_TARGET], RdData [RESP_DATA_NUMS], RdData [1, 0, 0, 0],
        RdData [3, 0, 0, 0], RdData [97, 0, 98]],
      writes = [], sent = [], errno = 0, dataCache = None, memory = 1024\<rparr>
   = Inr (0,
       SpineMLConnection\<lparr>established := True, clientConnectionName := [97],
         clientDataDirection := AM_TARGET, clientDataType := RESP_DATA_NUMS,
         data := Some [], doublebuf := Some 1\<rparr>,
       \<lparr>reads = [], writes = [],
        sent = [[RESP_HELLO], [RESP_RECVD], [RESP_RECVD], [RESP_RECVD]], errno = 0,
        dataCache = None, memory = 1024\<rparr>)"
  by (simp add: doHandshake_def hs_loop.simps hs_body_def hs_target_def hs_datatype_def
      hs_datasize_def hs_name_def attach_data_def sys_read_def sys_write_def le32_def
      SpineMLConnection_def)

text \<open>
  Claim C1, as the code has it. The client sends a direction byte that is \<open>AM_SOURCE\<close>
  or \<open>AM_TARGET\<close>, the byte \<open>RESP_DATA_NUMS\<close>, four bytes of data size (any value
  that the free store can give, so also every such value from 1 up), four bytes of name
  length with a value of at most 1024, and that many name bytes. The first \<open>read\<close> of
  each stage finds its piece whole, alone or with later bytes behind it, after at most 99
  calls that found no byte; the \<open>read\<close> of the name finds all the name bytes; each of
  the four one-byte writes of the handshake transfers its byte. Then \<open>doHandshake\<close>
  returns 0 with \<open>established\<close> set, \<open>clientDataDirection\<close>, \<open>clientDataType\<close>
  and \<open>clientDataSize\<close> as sent, \<open>doublebuf\<close> allocated with \<open>clientDataSize\<close>
  slots, a buffer attached, and \<open>clientConnectionName\<close> set to the name bytes before
  the first zero byte (all of them when the name has no zero byte).
\<close>

theorem handshake_succeeds:
  assumes dir: "d = AM_SOURCE \<or> d = AM_TARGET"
    and sz: "length sz = 4"
    and ln: "length ln = 4"
    and nm: "unat (le32 ln) = length name" "length name \<le> 1024"
    and mem: "unat (le32 sz) \<le> memory w"
    and wr: "list_all wr_ok (take 4 (writes w))"
    and r1: "stalled_read 99 [d] (reads w) = Some r1"
    and r2: "stalled_read 99 [RESP_DATA_NUMS] r1 = Some r2"
    and r3: "stalled_read 99 sz r2 = Some r3"
    and r4: "stalled_read 99 ln r3 = Some r4"
    and r5: "whole_read name r4 = Some rest"
  shows "\<exists>c' w'. doHandshake c w = Inr (0, c', w') \<and> established c' \<and>
           clientDataDirection c' = d \<and> clientDataType c' = RESP_DATA_NUMS \<and>
           clientDataSize c' = le32 sz \<and>
           clientConnectionName c' = takeWhile (\<lambda>x. x \<noteq> 0) name \<and>
           doublebuf c' = Some (unat (clientDataSize c')) \<and> data c' \<noteq> None \<and>
           failed c' = failed c \<and> noData c' = 0 \<and> reads w' = rest \<and>
           sent w' = sent w @ [[RESP_HELLO], [RESP_RECVD], [RESP_RECVD], [RESP_RECVD]]"
proof -
  let ?c = "c\<lparr>clientDataDirection := d, clientDataType := RESP_DATA_NUMS,
    clientDataSize := le32 sz, doublebuf := Some (unat (le32 sz)), noData := 0\<rparr>"
  let ?w = "w\<lparr>reads := r3, writes := tl (tl (tl (writes w))),
    sent := sent w @ [[RESP_HELLO], [RESP_RECVD], [RESP_RECVD]]\<rparr>"
  have "stalled_read 99 ln (reads ?w) = Some r4" "noData ?c + 99 < NO_DATA_MAX_COUNT"
    by (simp_all add: r4)
  moreover from wr_ok_fourth [OF wr] have "list_all wr_ok (take 1 (writes ?w))"
    by simp
  ultimately obtain c' w' where "hs_loop CS_HS_GETTINGNAME ?c ?w = Inr (0, c', w')"
    "established c'" "clientConnectionName c' = takeWhile (\<lambda>x. x \<noteq> 0) name"
    "data c' \<noteq> None" "noData c' = 0" "clientDataDirection c' = clientDataDirection ?c"
    "clientDataType c' = clientDataType ?c" "clientDataSize c' = clientDataSize ?c"
    "doublebuf c' = doublebuf ?c" "failed c' = failed ?c" "reads w' = rest"
    "sent w' = sent ?w @ [[RESP_RECVD]]"
    using hs_loop_name [OF _ _ r5 ln nm, where k = 99 and w = ?w and c = ?c and n = 1] by auto
  with hs_to_name [OF dir wr r1 r2 sz mem r3, of c] show ?thesis
    by simp
qed

theorem handshake_succeeds_witness:
  "\<exists>c' w'.
     doHandshake SpineMLConnection
       \<lparr>reads = [RdData [], RdData [AM_TARGET, RESP_DATA_NUMS], RdData [],
          RdData [3, 0, 0, 0, 4, 0, 0, 0, 116, 101, 115, 116]],
        writes = [WrCount 1, WrCount 1, WrCount 1, WrCount 1], sent = [], errno = 0,
        dataCache = None, memory = 1024\<rparr>
       = Inr (0, c', w') \<and>
     established c' \<and> clientDataDirection c' = AM_TARGET \<and>
     clientDataType c' = RESP_DATA_NUMS \<and> clientDataSize c' = 3 \<and>
     clientConnectionName c' = [116, 101, 115, 116] \<and> doublebuf c' = Some 3 \<and>
     data c' \<noteq> None \<and> \<not> failed c' \<and> reads w' = [] \<and>
     sent w' = [[RESP_HELLO], [RESP_RECVD], [RESP_RECVD], [RESP_RECVD]]"
proof -
  let ?w = "\<lparr>reads = [RdData [], RdData [AM_TARGET, RESP_DATA_NUMS], RdData [],
          RdData [3, 0, 0, 0, 4, 0, 0, 0, 116, 101, 115, 116]],
        writes = [WrCount 1, WrCount 1, WrCount 1, WrCount 1], sent = [], errno = 0,
        dataCache = None, memory = 1024\<rparr>"
  have dir: "AM_TARGET = AM_SOURCE \<or> AM_TARGET = AM_TARGET"
    by simp
  have len: "length [3, 0, 0, 0 :: byte] = 4" "length [4, 0, 0, 0 :: byte] = 4"
    by simp_all
  have nm: "unat (le32 [4, 0, 0, 0]) = length [116, 101, 115, 116 :: byte]"
    "length [116, 101, 115, 116 :: byte] \<le> 1024"
    by (simp_all add: le32_def)
  have sz: "le32 [3, 0, 0, 0] = 3"
    by (simp add: le32_def)
  have mem: "unat (le32 [3, 0, 0, 0]) \<le> memory ?w"
    by (simp add: sz)
  have wr: "list_all wr_ok (take 4 (writes ?w))"
    by (simp add: wr_ok_def)
  have r1: "stalled_read 99 [AM_TARGET] (reads ?w)
      = Some [RdData [RESP_DATA_NUMS], RdData [],
          RdData [3, 0, 0, 0, 4, 0, 0, 0, 116, 101, 115, 116]]"
    by (simp add: stalled_read_numeral whole_read_def)
  have r2: "stalled_read 99 [RESP_DATA_NUMS] [RdData [RESP_DATA_NUMS], RdData [],
          RdData [3, 0, 0, 0, 4, 0, 0, 0, 116, 101, 115, 116]]
      = Some [RdData [], RdData [3, 0, 0, 0, 4, 0, 0, 0, 116, 101, 115, 116]]"
    by (simp add: stalled_read_numeral whole_read_def)
  have r3: "stalled_read 99 [3, 0, 0, 0]
        [RdData [], RdData [3, 0, 0, 0, 4, 0, 0, 0, 116, 101, 115, 116]]
      = Some [RdData [4, 0, 0, 0, 116, 101, 115, 116]]"
    by (simp add: stalled_read_numeral whole_read_def)
  have r4: "stalled_read 99 [4, 0, 0, 0] [RdData [4, 0, 0, 0, 116, 101, 115, 116]]
      = Some [RdData [116, 101, 115, 116]]"
    by (simp add: stalled_read_numeral whole_read_def)
  have r5: "whole_read [116, 101, 115, 116] [RdData [116, 101, 115, 116]] = Some []"
    by (simp add: whole_read_def)
  from handshake_succeeds [OF dir len nm mem wr r1 r2 r3 r4 r5, of SpineMLConnection]
  show ?thesis
    by (auto simp: sz SpineMLConnection_def)
qed

text \<open>The same bytes, with the four bytes of the data size arriving in two pieces: the
  \<open>read\<close> of four bytes returns two, and the handshake fails.\<close>

lemma size_bytes_in_two_pieces:
  "doHandshake SpineMLConnection
     \<lparr>reads = [RdData [AM_TARGET], RdData [RESP_DATA_NUMS], RdData [3, 0], RdData [0, 0],
        RdData [4, 0, 0, 0], RdData [116, 101, 115, 116]],
      writes = [], sent = [], errno = 0, dataCache = None, memory = 1024\<rparr>
   = Inr (- 1,
       SpineMLConnection\<lparr>failed := True, clientDataDirection := AM_TARGET,
         clientDataType := RESP_DATA_NUMS\<rparr>,
       \<lparr>reads = [RdData [0, 0], RdData [4, 0, 0, 0], RdData [116, 101, 115, 116]],
        writes = [], sent = [[RESP_HELLO], [RESP_RECVD]], errno = 0,
        dataCache = None, memory = 1024\<rparr>)"
  by (simp add: doHandshake_def hs_loop.simps hs_body_def hs_target_def hs_datatype_def
      hs_datasize_def sys_read_def sys_write_def SpineMLConnection_def)

text \<open>A data size that the free store cannot give: \<^verbatim>\<open>new double[clientDataSize]\<close>
  throws, and \<open>doHandshake\<close> does not return.\<close>

lemma allocation_fails:
  "doHandshake SpineMLConnection
     \<lparr>reads = [RdData [AM_TARGET], RdData [RESP_DATA_NUMS], RdData [0, 0, 0, 128],
        RdData [4, 0, 0, 0], RdData [116, 101, 115, 116]],
      writes = [], sent = [], errno = 0, dataCache = None, memory = 1024\<rparr>
   = Inl BadAlloc"
  by (simp add: doHandshake_def hs_loop.simps hs_body_def hs_target_def hs_datatype_def
      hs_datasize_def sys_read_def sys_write_def le32_def SpineMLConnection_def)

text \<open>The deviations that the handshake does reject, each with \<open>-1\<close> and \<open>failed\<close>:
  a first byte that is no direction, a second byte that is not \<open>RESP_DATA_NUMS\<close>, one
  to three bytes where four are expected, a name length above 1024 as an \<open>int\<close>, and
  fewer name bytes than announced.\<close>

lemma hs_loop_return:
  "stage \<noteq> CS_HS_DONE \<Longrightarrow> noData c < NO_DATA_MAX_COUNT \<Longrightarrow>
   hs_body stage c w = Return rc c' w' \<Longrightarrow> hs_loop stage c w = Inr (rc, c', w')"
  by (subst hs_loop.simps) simp

lemma hs_target_rejects:
  "x \<noteq> AM_SOURCE \<Longrightarrow> x \<noteq> AM_TARGET \<Longrightarrow>
   hs_target c (w\<lparr>reads := RdData [x] # rs\<rparr>)
     = Return (- 1) (c\<lparr>clientDataDirection := NOT_SET, failed := True\<rparr>) (w\<lparr>reads := rs\<rparr>)"
  by (simp add: hs_target_def sys_read_def)

lemma hs_datatype_rejects:
  "x \<noteq> RESP_DATA_NUMS \<Longrightarrow>
   hs_datatype c (w\<lparr>reads := RdData [x] # rs\<rparr>)
     = Return (- 1) (c\<lparr>failed := True\<rparr>) (w\<lparr>reads := rs\<rparr>)"
  by (simp add: hs_datatype_def sys_read_def)

lemma sys_read_short:
  "0 < length bs \<Longrightarrow> length bs < 4 \<Longrightarrow>
   sys_read 4 (w\<lparr>reads := RdData bs # rs\<rparr>) = (int (length bs), bs, w\<lparr>reads := rs\<rparr>)"
  by (simp add: sys_read_def)

lemma hs_datasize_short_read:
  "0 < length bs \<Longrightarrow> length bs < 4 \<Longrightarrow>
   hs_datasize c (w\<lparr>reads := RdData bs # rs\<rparr>)
     = Return (- 1) (c\<lparr>failed := True\<rparr>) (w\<lparr>reads := rs\<rparr>)"
  by (simp add: hs_datasize_def sys_read_short)

lemma hs_name_short_read:
  "0 < length bs \<Longrightarrow> length bs < 4 \<Longrightarrow>
   hs_name c (w\<lparr>reads := RdData bs # rs\<rparr>)
     = Return (- 1) (c\<lparr>failed := True\<rparr>) (w\<lparr>reads := rs\<rparr>)"
  by (simp add: hs_name_def sys_read_short)

lemma hs_name_too_long:
  "length ln = 4 \<Longrightarrow> 1024 < sint (le32 ln) \<Longrightarrow>
   hs_name c (w\<lparr>reads := RdData ln # rs\<rparr>)
     = Return (- 1) (c\<lparr>failed := True\<rparr>) (w\<lparr>reads := rs\<rparr>)"
  by (simp add: hs_name_def sys_read_def)

lemma hs_name_short_name:
  assumes "length ln = 4" and "0 \<le> sint (le32 ln)" and "sint (le32 ln) \<le> 1024"
    and "int (length nm) < sint (le32 ln)"
  shows "hs_name c (w\<lparr>reads := RdData ln # RdData nm # rs\<rparr>)
           = Return (- 1) (c\<lparr>failed := True\<rparr>) (w\<lparr>reads := rs\<rparr>)"
proof -
  from assms have m: "sint (le32 ln) mod 2 ^ 64 = sint (le32 ln)"
    by simp
  from assms have "length nm < nat (sint (le32 ln))" "nat (sint (le32 ln)) \<le> 1024"
    by linarith+
  then have "sys_read (nat (sint (le32 ln))) (w\<lparr>reads := RdData nm # rs\<rparr>)
      = (int (length nm), nm, w\<lparr>reads := rs\<rparr>)"
    by (simp add: sys_read_def min_def)
  with assms m show ?thesis
    by (simp add: hs_name_def sys_read_def)
qed

text \<open>The deviation that it does not reject: a name length with the top bit set. Below
  \<open>-1\<close> the array \<open>namebuf\<close> has a negative length. At \<open>-1\<close>, the bytes
  \<open>FF FF FF FF\<close>, it has the length 0 and what happens depends on the \<open>read\<close>
  of the name, which is asked for \<open>2\<^sup>6\<^sup>4 - 1\<close> bytes: when it fails, its result
  \<open>-1\<close> equals \<open>nameSize\<close>, the handshake goes on and stores at index \<open>-1\<close>;
  when it finds no byte the handshake fails as it should; when it finds bytes they are
  stored past the end of \<open>namebuf\<close>.\<close>

lemma hs_name_negative:
  "length ln = 4 \<Longrightarrow> sint (le32 ln) < - 1 \<Longrightarrow>
   hs_name c (w\<lparr>reads := RdData ln # rs\<rparr>) = Fault NegativeLength"
  by (simp add: hs_name_def sys_read_def)

lemma hs_name_minus_one:
  "hs_name c (w\<lparr>reads := RdData [255, 255, 255, 255] # e # rs\<rparr>) =
     (case e of
        RdErr x \<Rightarrow> Fault NegativeLength
      | RdData bs \<Rightarrow>
          if bs = [] then Return (- 1) (c\<lparr>failed := True\<rparr>) (w\<lparr>reads := rs\<rparr>)
          else Fault BufferOverrun)"
proof -
  have "sint (le32 [255, 255, 255, 255]) = - 1"
    by (simp add: le32_def)
  then show ?thesis
    by (cases e) (auto simp: hs_name_def sys_read_def Let_def)
qed

text \<open>
  Claim C2. The claim: a name-length field whose unsigned value is above 1024 makes
  \<open>doHandshake\<close> return \<open>-1\<close> with \<open>failed\<close> set. The code: the four bytes
  \<open>FF FF FF FF\<close> are the \<open>int\<close> \<open>-1\<close>, which the check \<^verbatim>\<open>nameSize > 1024\<close>
  lets through. The \<open>read\<close> of the name is then asked for \<open>2\<^sup>6\<^sup>4 - 1\<close> bytes
  and fails (with \<open>EINVAL\<close>, 22, on Linux); the \<open>-1\<close> it returns equals \<open>nameSize\<close>,
  so the check \<^verbatim>\<open>b != nameSize\<close> lets it through as well, and \<open>doHandshake\<close> does
  not return \<open>-1\<close> but goes on to write at index \<open>-1\<close> of an array of length 0.
\<close>

theorem negative_name_length_not_rejected:
  "doHandshake SpineMLConnection
     \<lparr>reads = [RdData [AM_SOURCE], RdData [RESP_DATA_NUMS], RdData [1, 0, 0, 0],
        RdData [255, 255, 255, 255], RdErr 22],
      writes = [], sent = [], errno = 0, dataCache = None, memory = 1024\<rparr>
   = Inl NegativeLength"
  by (simp add: doHandshake_def hs_loop.simps hs_body_def hs_target_def hs_datatype_def
      hs_datasize_def hs_name_def sys_read_def sys_write_def le32_def SpineMLConnection_def)

end
